theory Spec2Isabelle
  imports Main "HOL-Library.AList"
begin

section \<open>The real-time coordinator of the chat server\<close>

text \<open>
  The server keeps three module-level JavaScript objects,
  \<^verbatim>\<open>activeCallSessions\<close>, \<^verbatim>\<open>userSockets\<close> and \<^verbatim>\<open>userLoginTime\<close>, and mutates them
  from socket.io event handlers and from the callback of the no-answer timer.

  Modelling decisions:
  \<^item> A JavaScript object used as a dictionary is an association list of its own
    properties in insertion order. \<^verbatim>\<open>obj[k] = v\<close> is \<open>AList.update\<close> (replace in place,
    else append), \<^verbatim>\<open>delete obj[k]\<close> is \<open>AList.delete\<close>, and an assignment to a field of
    the object stored under \<open>k\<close> is \<open>AList.map_entry\<close>.
  \<^item> The three tables are plain objects, so a read \<^verbatim>\<open>obj[k]\<close> that finds no own property
    goes on to \<^verbatim>\<open>Object.prototype\<close>: for the eleven names in \<open>object_prototype_members\<close>
    it yields a built-in function, which is truthy and has none of the fields of a
    session. \<^verbatim>\<open>call:accept\<close> writes \<^verbatim>\<open>status = "connected"\<close> on whatever the lookup
    returned, also on such a function; \<open>connectedMembers\<close> records the names so marked.
    Where a handler only reads \<^verbatim>\<open>noAnswerTimeout\<close>, \<^verbatim>\<open>callerId\<close>, \<^verbatim>\<open>receiverId\<close> or
    compares \<^verbatim>\<open>status\<close> with \<^verbatim>\<open>"ringing"\<close>, a built-in function behaves as a missing
    entry does, and the lookup is \<open>map_of\<close>.
  \<^item> User ids are the strings other than \<^verbatim>\<open>__proto__\<close> (type \<open>user_id\<close>): that key is an
    accessor of \<^verbatim>\<open>Object.prototype\<close>, and assigning to it stores no property. The empty
    string is the falsy id. The two session objects that \<^verbatim>\<open>call:initiate\<close> creates are
    distinct objects and no other reference to them is kept, so entries are values.
  \<^item> A socket id is a non-empty string in socket.io, hence always truthy; it is an opaque
    connection number here. \<^verbatim>\<open>socket.userId\<close> and \<^verbatim>\<open>socket.loginTime\<close> are per-connection
    fields, \<open>None\<close> while undefined.
  \<^item> Login times are numbers; \<open>0\<close> is the falsy one. \<^verbatim>\<open>Date.now()\<close> is an input of the
    handler that reads it.
  \<^item> \<^verbatim>\<open>setTimeout\<close> returns a fresh (truthy) handle: a counter. The table \<open>timers\<close> holds
    the armed timers with their delay and the ids captured by the callback;
    \<^verbatim>\<open>clearTimeout\<close> removes the handle, and a timer fires only while it is armed. When
    it fires is not modelled: a timer may fire at any moment.
  \<^item> An output is an event name with its payload and its addressee as the source writes
    it: the emitting socket, the room \<^verbatim>\<open>user:<id>\<close>, every socket, or every socket but
    the emitting one. Which connections have joined a room is not modelled.
  \<^item> The result of the awaited \<^verbatim>\<open>User.findByIdAndUpdate\<close> is an input of the handler:
    the promise resolves to a user document, resolves to \<^verbatim>\<open>null\<close>, or rejects. All
    mutations of the three objects happen before the first \<^verbatim>\<open>await\<close> of a handler, so a
    handler is one atomic step; its outputs are listed in program order. The \<^verbatim>\<open>lastSeen\<close>
    timestamp of a store write is left out.
\<close>

subsection \<open>Data\<close>

typedef user_id = "{s :: string. s \<noteq> ''__proto__''}"
  morphisms id_name user
  by (rule exI [of _ "[]"]) simp

type_synonym socket_id = nat
type_synonym timer_id = nat

datatype call_status = Calling | Ringing | Connected

record call_session =
  sessionId :: string
  callerId :: user_id
  receiverId :: user_id
  status :: call_status
  startTime :: nat
  noAnswerTimeout :: "timer_id option"

record timer_closure =
  tm_delay :: nat
  tm_callerId :: user_id
  tm_receiverId :: user_id

record socket_fields =
  sock_userId :: "user_id option"
  sock_loginTime :: "nat option"

record coordinator =
  activeCallSessions :: "(user_id \<times> call_session) list"
  userSockets :: "(user_id \<times> socket_id) list"
  userLoginTime :: "(user_id \<times> nat) list"
  sockets :: "socket_id \<Rightarrow> socket_fields"
  timers :: "(timer_id \<times> timer_closure) list"
  nextTimer :: timer_id
  connectedMembers :: "user_id list"

datatype lookup = Own call_session | Builtin | Undefined

subsection \<open>Outputs\<close>

datatype target =
    ToSocket socket_id      \<comment> \<open>\<^verbatim>\<open>socket.emit\<close>\<close>
  | ToUserRoom user_id      \<comment> \<open>\<^verbatim>\<open>io.to(`user:${id}`).emit\<close>\<close>
  | ToAll                   \<comment> \<open>\<^verbatim>\<open>io.emit\<close>\<close>
  | ToAllExcept socket_id   \<comment> \<open>\<^verbatim>\<open>socket.broadcast.emit\<close>\<close>

datatype presence = Online | Offline

datatype message =
    UserStatusChanged user_id presence "nat option"
  | CallUserOffline user_id string
  | CallBusy user_id string
  | CallIncoming user_id user_id string string string string string
  | CallAnswerReceived user_id user_id string string
  | CallAcceptedNotification user_id user_id
  | CallSessionNotFound user_id user_id
  | CallRejected user_id user_id string string
  | CallEnded user_id user_id string

datatype effect =
    Emit target message
  | StoreUpdate user_id presence "socket_id option" "nat option"

datatype store_outcome = StoreFound | StoreMissing | StoreFailed

subsection \<open>Helpers\<close>

definition digit_char :: "nat \<Rightarrow> char" where
  "digit_char d = ''0123456789'' ! d"

function show_nat :: "nat \<Rightarrow> string" where
  "show_nat n = (if n < 10 then [digit_char n] else show_nat (n div 10) @ [digit_char (n mod 10)])"
  by pat_completeness auto
termination
  by (relation "measure id") auto

declare show_nat.simps [simp del]

definition object_prototype_members :: "string list" where
  "object_prototype_members =
     [''constructor'', ''__defineGetter__'', ''__defineSetter__'', ''hasOwnProperty'',
      ''__lookupGetter__'', ''__lookupSetter__'', ''isPrototypeOf'', ''propertyIsEnumerable'',
      ''toString'', ''valueOf'', ''toLocaleString'']"

definition inherited :: "user_id \<Rightarrow> bool" where
  "inherited k = (id_name k \<in> set object_prototype_members)"

definition lookup_session :: "coordinator \<Rightarrow> user_id \<Rightarrow> lookup" where
  \<comment> \<open>\<^verbatim>\<open>activeCallSessions[k]\<close>\<close>
  "lookup_session s k =
     (case map_of (activeCallSessions s) k of
        Some e \<Rightarrow> Own e
      | None \<Rightarrow> if inherited k then Builtin else Undefined)"

definition session_connected :: "coordinator \<Rightarrow> user_id \<Rightarrow> bool" where
  \<comment> \<open>\<^verbatim>\<open>x && x.status === "connected"\<close> for \<^verbatim>\<open>x = activeCallSessions[k]\<close>\<close>
  "session_connected s k =
     (case lookup_session s k of
        Own e \<Rightarrow> status e = Connected
      | Builtin \<Rightarrow> k \<in> set (connectedMembers s)
      | Undefined \<Rightarrow> False)"

definition session_pending :: "coordinator \<Rightarrow> user_id \<Rightarrow> bool" where
  \<comment> \<open>\<^verbatim>\<open>x && x.status !== "connected"\<close> for \<^verbatim>\<open>x = activeCallSessions[k]\<close>\<close>
  "session_pending s k =
     (case lookup_session s k of
        Own e \<Rightarrow> status e \<noteq> Connected
      | Builtin \<Rightarrow> k \<notin> set (connectedMembers s)
      | Undefined \<Rightarrow> False)"

definition socket_registered :: "coordinator \<Rightarrow> user_id \<Rightarrow> bool" where
  \<comment> \<open>\<^verbatim>\<open>userSockets[k]\<close> is truthy\<close>
  "socket_registered s k = (map_of (userSockets s) k \<noteq> None \<or> inherited k)"

definition lookup_timeout :: "lookup \<Rightarrow> timer_id option" where
  "lookup_timeout x = (case x of Own e \<Rightarrow> noAnswerTimeout e | Builtin \<Rightarrow> None | Undefined \<Rightarrow> None)"

definition mark_connected :: "user_id \<Rightarrow> lookup \<Rightarrow> user_id list \<Rightarrow> user_id list" where
  "mark_connected k x ms = (case x of Own e \<Rightarrow> ms | Builtin \<Rightarrow> List.insert k ms | Undefined \<Rightarrow> ms)"

definition clear_timeout :: "timer_id option \<Rightarrow> (timer_id \<times> timer_closure) list \<Rightarrow> (timer_id \<times> timer_closure) list" where
  "clear_timeout h tm = (case h of None \<Rightarrow> tm | Some t \<Rightarrow> AList.delete t tm)"

definition session_timeout :: "call_session option \<Rightarrow> timer_id option" where
  "session_timeout e = (case e of None \<Rightarrow> None | Some x \<Rightarrow> noAnswerTimeout x)"

definition is_connected :: "call_session option \<Rightarrow> bool" where
  "is_connected e = (case e of None \<Rightarrow> False | Some x \<Rightarrow> status x = Connected)"

definition is_pending :: "call_session option \<Rightarrow> bool" where
  "is_pending e = (case e of None \<Rightarrow> False | Some x \<Rightarrow> status x \<noteq> Connected)"

definition pair_matches :: "call_session option \<Rightarrow> user_id \<Rightarrow> user_id \<Rightarrow> bool" where
  "pair_matches e caller receiver =
     (case e of None \<Rightarrow> False | Some x \<Rightarrow> callerId x = caller \<and> receiverId x = receiver)"

definition connect :: "call_session \<Rightarrow> call_session" where
  "connect x = x\<lparr>status := Connected, noAnswerTimeout := None\<rparr>"

definition login_time_or_now :: "nat option \<Rightarrow> nat \<Rightarrow> nat" where
  \<comment> \<open>\<^verbatim>\<open>loginTime || Date.now()\<close>\<close>
  "login_time_or_now loginTime now =
     (case loginTime of None \<Rightarrow> now | Some n \<Rightarrow> if n \<noteq> 0 then n else now)"

definition epoch_matches :: "nat option \<Rightarrow> nat option \<Rightarrow> bool" where
  "epoch_matches stored mine =
     (case stored of None \<Rightarrow> False | Some e \<Rightarrow> e \<noteq> 0 \<and> mine = Some e)"

subsection \<open>Presence handlers\<close>

definition user_online ::
  "socket_id \<Rightarrow> user_id \<Rightarrow> nat option \<Rightarrow> nat \<Rightarrow> store_outcome \<Rightarrow> coordinator \<Rightarrow> coordinator \<times> effect list" where
  "user_online sid uid loginTime now outcome s =
     (let lt = login_time_or_now loginTime now;
          s' = s\<lparr>sockets := (sockets s)(sid := \<lparr>sock_userId = Some uid, sock_loginTime = Some lt\<rparr>),
                 userSockets := AList.update uid sid (userSockets s),
                 userLoginTime := AList.update uid lt (userLoginTime s)\<rparr>
      in (s', StoreUpdate uid Online (Some sid) (Some lt) #
              (if outcome = StoreFound
               then [Emit ToAll (UserStatusChanged uid Online (Some lt))]
               else [])))"

definition user_offline ::
  "socket_id \<Rightarrow> user_id \<Rightarrow> store_outcome \<Rightarrow> coordinator \<Rightarrow> coordinator \<times> effect list" where
  "user_offline sid uid outcome s =
     (if epoch_matches (map_of (userLoginTime s) uid) (sock_loginTime (sockets s sid))
      then (s\<lparr>userSockets := AList.delete uid (userSockets s),
               userLoginTime := AList.delete uid (userLoginTime s)\<rparr>,
            StoreUpdate uid Offline None None #
            (if outcome \<noteq> StoreFailed
             then [Emit (ToAllExcept sid) (UserStatusChanged uid Offline None)]
             else []))
      else (s, []))"

subsection \<open>Call handlers\<close>

definition noAnswerTimeout_callback :: "user_id \<Rightarrow> user_id \<Rightarrow> coordinator \<Rightarrow> coordinator \<times> effect list" where
  "noAnswerTimeout_callback caller receiver s =
     (case map_of (activeCallSessions s) receiver of
        None \<Rightarrow> (s, [])
      | Some currentReceiverSession \<Rightarrow>
          if status currentReceiverSession = Ringing
          then (s\<lparr>activeCallSessions :=
                     AList.delete receiver (AList.delete caller (activeCallSessions s))\<rparr>,
                [Emit (ToUserRoom caller) (CallEnded caller receiver ''no_answer''),
                 Emit (ToUserRoom receiver) (CallEnded caller receiver ''no_answer_timeout'')])
          else (s, []))"

definition timer_fire :: "timer_id \<Rightarrow> coordinator \<Rightarrow> coordinator \<times> effect list" where
  "timer_fire t s =
     (case map_of (timers s) t of
        None \<Rightarrow> (s, [])
      | Some cl \<Rightarrow>
          noAnswerTimeout_callback (tm_callerId cl) (tm_receiverId cl)
            (s\<lparr>timers := AList.delete t (timers s)\<rparr>))"

definition call_initiate ::
  "socket_id \<Rightarrow> user_id \<Rightarrow> user_id \<Rightarrow> string \<Rightarrow> string \<Rightarrow> string \<Rightarrow> string \<Rightarrow>
   nat \<Rightarrow> nat \<Rightarrow> nat \<Rightarrow> coordinator \<Rightarrow> coordinator \<times> effect list" where
  "call_initiate sid caller receiver offer callerName callerProfile chatId now0 now1 now2 s =
     (if \<not> socket_registered s receiver
      then (s, [Emit (ToSocket sid) (CallUserOffline receiver ''User is offline'')])
      else if session_connected s receiver
      then (s, [Emit (ToSocket sid) (CallBusy receiver ''User is already on another call'')])
      else if session_connected s caller
      then (s, [Emit (ToSocket sid) (CallBusy receiver ''You are already in a call'')])
      else
        let tbl1 = (if session_pending s caller
                    then AList.delete caller (activeCallSessions s)
                    else activeCallSessions s);
            tbl2 = (if session_pending s receiver
                    then AList.delete receiver tbl1 else tbl1);
            callSessionId = id_name caller @ ''-'' @ id_name receiver @ ''-'' @ show_nat now0;
            tbl3 = AList.update caller
                     \<lparr>sessionId = callSessionId, callerId = caller, receiverId = receiver,
                      status = Calling, startTime = now1, noAnswerTimeout = None\<rparr> tbl2;
            tbl4 = AList.update receiver
                     \<lparr>sessionId = callSessionId, callerId = caller, receiverId = receiver,
                      status = Ringing, startTime = now2, noAnswerTimeout = None\<rparr> tbl3;
            t = nextTimer s;
            tbl5 = AList.map_entry caller (\<lambda>x. x\<lparr>noAnswerTimeout := Some t\<rparr>) tbl4;
            tbl6 = AList.map_entry receiver (\<lambda>x. x\<lparr>noAnswerTimeout := Some t\<rparr>) tbl5
        in (s\<lparr>activeCallSessions := tbl6,
               timers := AList.update t
                 \<lparr>tm_delay = 30000, tm_callerId = caller, tm_receiverId = receiver\<rparr> (timers s),
               nextTimer := Suc t\<rparr>,
            [Emit (ToUserRoom receiver)
               (CallIncoming caller receiver offer callerName callerProfile chatId callSessionId)]))"

definition call_accept ::
  "socket_id \<Rightarrow> user_id \<Rightarrow> user_id \<Rightarrow> string \<Rightarrow> string \<Rightarrow> coordinator \<Rightarrow> coordinator \<times> effect list" where
  "call_accept sid caller receiver answer receiverName s =
     (let callerSession = lookup_session s caller;
          receiverSession = lookup_session s receiver
      in if callerSession = Undefined \<or> receiverSession = Undefined
         then (s, [Emit (ToSocket sid) (CallSessionNotFound caller receiver)])
         else
           (s\<lparr>timers := clear_timeout (lookup_timeout receiverSession)
                           (clear_timeout (lookup_timeout callerSession) (timers s)),
              activeCallSessions :=
                AList.map_entry receiver connect
                  (AList.map_entry caller connect (activeCallSessions s)),
              connectedMembers :=
                mark_connected receiver receiverSession
                  (mark_connected caller callerSession (connectedMembers s))\<rparr>,
            [Emit (ToUserRoom caller) (CallAnswerReceived caller receiver answer receiverName),
             Emit (ToUserRoom caller) (CallAcceptedNotification caller receiver),
             Emit (ToUserRoom receiver) (CallAcceptedNotification caller receiver)]))"

definition call_reject ::
  "socket_id \<Rightarrow> user_id \<Rightarrow> user_id \<Rightarrow> string \<Rightarrow> string \<Rightarrow> coordinator \<Rightarrow> coordinator \<times> effect list" where
  "call_reject sid caller receiver reason receiverName s =
     (let callerSession = map_of (activeCallSessions s) caller;
          receiverSession = map_of (activeCallSessions s) receiver
      in (s\<lparr>timers := clear_timeout (session_timeout receiverSession)
                         (clear_timeout (session_timeout callerSession) (timers s)),
             activeCallSessions :=
               AList.delete receiver (AList.delete caller (activeCallSessions s))\<rparr>,
          [Emit (ToUserRoom caller)
             (CallRejected caller receiver reason
                (if receiverName \<noteq> [] then receiverName else ''User'')),
           Emit (ToUserRoom receiver) (CallEnded caller receiver ''rejected_by_user'')]))"

definition call_end ::
  "socket_id \<Rightarrow> user_id \<Rightarrow> user_id \<Rightarrow> string \<Rightarrow> coordinator \<Rightarrow> coordinator \<times> effect list" where
  "call_end sid caller receiver reason s =
     (let callerSession = map_of (activeCallSessions s) caller;
          receiverSession = map_of (activeCallSessions s) receiver;
          tbl1 = (if pair_matches callerSession caller receiver
                  then AList.delete caller (activeCallSessions s)
                  else activeCallSessions s);
          tbl2 = (if pair_matches receiverSession caller receiver
                  then AList.delete receiver tbl1 else tbl1)
      in (s\<lparr>timers := clear_timeout (session_timeout receiverSession)
                         (clear_timeout (session_timeout callerSession) (timers s)),
             activeCallSessions := tbl2\<rparr>,
          (if id_name receiver \<noteq> []
           then [Emit (ToUserRoom receiver) (CallEnded caller receiver reason)] else []) @
          (if id_name caller \<noteq> []
           then [Emit (ToUserRoom caller) (CallEnded caller receiver reason)] else [])))"

subsection \<open>Disconnect\<close>

definition other_participant :: "call_session \<Rightarrow> user_id \<Rightarrow> user_id" where
  "other_participant userSession userId =
     (if callerId userSession = userId then receiverId userSession else callerId userSession)"

definition disconnect_call :: "user_id \<Rightarrow> coordinator \<Rightarrow> coordinator \<times> effect list" where
  "disconnect_call userId s =
     (case lookup_session s userId of
        Undefined \<Rightarrow> (s, [])
      | Builtin \<Rightarrow>
          \<comment> \<open>\<^verbatim>\<open>otherUserId\<close> is \<^verbatim>\<open>undefined\<close>, and \<^verbatim>\<open>delete obj[undefined]\<close> removes the
             property named \<^verbatim>\<open>undefined\<close>\<close>
          (s\<lparr>activeCallSessions :=
               AList.delete (user ''undefined'') (AList.delete userId (activeCallSessions s))\<rparr>,
           [])
      | Own userSession \<Rightarrow>
          let otherUserId = other_participant userSession userId
          in (s\<lparr>timers := clear_timeout (noAnswerTimeout userSession) (timers s),
                 activeCallSessions :=
                   AList.delete otherUserId (AList.delete userId (activeCallSessions s))\<rparr>,
              if id_name otherUserId \<noteq> []
              then [Emit (ToUserRoom otherUserId)
                      (CallEnded (callerId userSession) (receiverId userSession) ''disconnected'')]
              else []))"

definition disconnect :: "socket_id \<Rightarrow> store_outcome \<Rightarrow> coordinator \<Rightarrow> coordinator \<times> effect list" where
  "disconnect sid outcome s =
     (case sock_userId (sockets s sid) of
        None \<Rightarrow> (s, [])
      | Some userId \<Rightarrow>
          if id_name userId = [] then (s, [])
          else if epoch_matches (map_of (userLoginTime s) userId) (sock_loginTime (sockets s sid))
          then
            let (s1, ended) = disconnect_call userId s
            in (s1\<lparr>userSockets := AList.delete userId (userSockets s1),
                    userLoginTime := AList.delete userId (userLoginTime s1)\<rparr>,
                ended @ StoreUpdate userId Offline None None #
                (if outcome \<noteq> StoreFailed
                 then [Emit (ToAllExcept sid) (UserStatusChanged userId Offline None)]
                 else []))
          else (s, []))"

subsection \<open>Events and executions\<close>

datatype event =
    UserOnline socket_id user_id "nat option" nat store_outcome
  | UserOffline socket_id user_id store_outcome
  | CallInitiate socket_id user_id user_id string string string string nat nat nat
  | CallAccept socket_id user_id user_id string string
  | CallReject socket_id user_id user_id string string
  | CallEnd socket_id user_id user_id string
  | TimerFire timer_id
  | Disconnect socket_id store_outcome

fun step :: "event \<Rightarrow> coordinator \<Rightarrow> coordinator \<times> effect list" where
  "step (UserOnline sid uid loginTime now outcome) s = user_online sid uid loginTime now outcome s"
| "step (UserOffline sid uid outcome) s = user_offline sid uid outcome s"
| "step (CallInitiate sid caller receiver offer callerName callerProfile chatId now0 now1 now2) s =
     call_initiate sid caller receiver offer callerName callerProfile chatId now0 now1 now2 s"
| "step (CallAccept sid caller receiver answer receiverName) s =
     call_accept sid caller receiver answer receiverName s"
| "step (CallReject sid caller receiver reason receiverName) s =
     call_reject sid caller receiver reason receiverName s"
| "step (CallEnd sid caller receiver reason) s = call_end sid caller receiver reason s"
| "step (TimerFire t) s = timer_fire t s"
| "step (Disconnect sid outcome) s = disconnect sid outcome s"

fun exec :: "coordinator \<Rightarrow> event list \<Rightarrow> coordinator \<times> effect list" where
  "exec s [] = (s, [])"
| "exec s (e # es) =
     (let (s1, out1) = step e s; (s2, out2) = exec s1 es in (s2, out1 @ out2))"

definition init_state :: coordinator where
  "init_state =
     \<lparr>activeCallSessions = [], userSockets = [], userLoginTime = [],
      sockets = (\<lambda>sid. \<lparr>sock_userId = None, sock_loginTime = None\<rparr>),
      timers = [], nextTimer = 0, connectedMembers = []\<rparr>"

definition entries_of :: "user_id \<Rightarrow> coordinator \<Rightarrow> (user_id \<times> call_session) list" where
  "entries_of uid s = filter (\<lambda>p. fst p = uid) (activeCallSessions s)"

subsection \<open>Derived notions and example states\<close>

definition keys_distinct :: "coordinator \<Rightarrow> bool" where
  "keys_distinct s = distinct (map fst (activeCallSessions s))"

definition is_ringing :: "call_session option \<Rightarrow> bool" where
  "is_ringing e = (case e of None \<Rightarrow> False | Some x \<Rightarrow> status x = Ringing)"

definition initiate_passes :: "user_id \<Rightarrow> user_id \<Rightarrow> coordinator \<Rightarrow> bool" where
  "initiate_passes caller receiver s =
     (socket_registered s receiver \<and>
      \<not> session_connected s receiver \<and>
      \<not> session_connected s caller)"

definition new_session :: "user_id \<Rightarrow> user_id \<Rightarrow> nat \<Rightarrow> call_status \<Rightarrow> nat \<Rightarrow> timer_id \<Rightarrow> call_session" where
  "new_session caller receiver now0 st start t =
     \<lparr>sessionId = id_name caller @ ''-'' @ id_name receiver @ ''-'' @ show_nat now0, callerId = caller,
      receiverId = receiver, status = st, startTime = start, noAnswerTimeout = Some t\<rparr>"

definition ex_online :: coordinator where
  "ex_online = fst (exec init_state
     [UserOnline 0 (user ''A'') (Some 7) 100 StoreFound, UserOnline 1 (user ''B'') None 101 StoreFound])"

definition ex_connected :: coordinator where
  "ex_connected = fst (exec ex_online
     [CallInitiate 0 (user ''A'') (user ''B'') ''offer'' ''Ann'' ''pic'' ''chat'' 5 5 5,
      CallAccept 1 (user ''A'') (user ''B'') ''answer'' ''Bob''])"




definition ex_two_sessions :: coordinator where
  "ex_two_sessions = fst (exec init_state
     [UserOnline 0 (user ''u1'') (Some 1) 100 StoreFound, UserOnline 1 (user ''u1'') (Some 2) 100 StoreFound])"

definition ex_crossed_events :: "event list" where
  "ex_crossed_events =
     [UserOnline 0 (user ''A'') (Some 7) 100 StoreFound, UserOnline 1 (user ''B'') None 101 StoreFound,
      CallInitiate 0 (user ''A'') (user ''B'') ''offer'' ''Ann'' ''pic'' ''chat'' 5 5 5,
      CallInitiate 2 (user ''C'') (user ''B'') ''offer'' ''Cy'' ''pic'' ''chat'' 6 6 6]"

definition holds_timer :: "call_session option \<Rightarrow> timer_id \<Rightarrow> bool" where
  "holds_timer e t = (case e of None \<Rightarrow> False | Some x \<Rightarrow> noAnswerTimeout x = Some t)"

definition timer_cancelled :: "timer_id \<Rightarrow> coordinator \<Rightarrow> bool" where
  "timer_cancelled t s = (map_of (timers s) t = None \<and> t < nextTimer s)"

definition ex_stale_timer_events :: "event list" where
  "ex_stale_timer_events =
     [UserOnline 0 (user ''A'') (Some 7) 100 StoreFound, UserOnline 1 (user ''B'') None 101 StoreFound,
      CallInitiate 0 (user ''A'') (user ''B'') ''offer'' ''Ann'' ''pic'' ''chat'' 5 5 5,
      CallInitiate 0 (user ''A'') (user ''B'') ''offer'' ''Ann'' ''pic'' ''chat'' 6 6 6,
      CallReject 1 (user ''A'') (user ''B'') ''declined'' ''Bob'',
      CallInitiate 0 (user ''A'') (user ''B'') ''offer'' ''Ann'' ''pic'' ''chat'' 8 8 8]"

section \<open>Properties\<close>

subsection \<open>User ids\<close>

lemma user_eq [simp]:
  "s \<noteq> ''__proto__'' \<Longrightarrow> t \<noteq> ''__proto__'' \<Longrightarrow> (user s = user t) = (s = t)"
  by (simp add: user_inject)

lemma id_name_user [simp]: "s \<noteq> ''__proto__'' \<Longrightarrow> id_name (user s) = s"
  by (simp add: user_inverse)

lemmas lookup_defs =
  lookup_session_def session_connected_def session_pending_def socket_registered_def
  lookup_timeout_def mark_connected_def inherited_def object_prototype_members_def

lemma map_of_own:
  "map_of (activeCallSessions s) k = Some e \<Longrightarrow> lookup_session s k = Own e"
  by (simp add: lookup_session_def)

lemma own_connected:
  "map_of (activeCallSessions s) k = Some e \<Longrightarrow> session_connected s k = (status e = Connected)"
  by (simp add: session_connected_def lookup_session_def)

subsection \<open>The active-call table has one entry per key\<close>

lemma keys_distinct_timer_callback:
  "keys_distinct s \<Longrightarrow> keys_distinct (fst (noAnswerTimeout_callback c r s))"
  by (simp add: keys_distinct_def noAnswerTimeout_callback_def distinct_delete
      split: option.splits)

lemma keys_distinct_timer_fire:
  "keys_distinct s \<Longrightarrow> keys_distinct (fst (timer_fire t s))"
proof (cases "map_of (timers s) t")
  case None
  then show "keys_distinct s \<Longrightarrow> ?thesis" by (simp add: timer_fire_def)
next
  case (Some cl)
  assume "keys_distinct s"
  then have "keys_distinct (s\<lparr>timers := AList.delete t (timers s)\<rparr>)"
    by (simp add: keys_distinct_def)
  then show ?thesis
    using Some by (simp add: timer_fire_def keys_distinct_timer_callback)
qed

lemma keys_distinct_user_online:
  "keys_distinct s \<Longrightarrow> keys_distinct (fst (user_online sid uid lt now oc s))"
  by (simp add: keys_distinct_def user_online_def Let_def)

lemma keys_distinct_user_offline:
  "keys_distinct s \<Longrightarrow> keys_distinct (fst (user_offline sid uid oc s))"
  by (simp add: keys_distinct_def user_offline_def)

lemma keys_distinct_call_initiate:
  "keys_distinct s \<Longrightarrow>
   keys_distinct (fst (call_initiate sid c r offer nm pr ch n0 n1 n2 s))"
  by (simp add: keys_distinct_def call_initiate_def Let_def distinct_delete distinct_update
      distinct_map_entry split: option.splits)

lemma keys_distinct_call_accept:
  "keys_distinct s \<Longrightarrow> keys_distinct (fst (call_accept sid c r ans nm s))"
  by (simp add: keys_distinct_def call_accept_def Let_def distinct_map_entry)

lemma keys_distinct_call_reject:
  "keys_distinct s \<Longrightarrow> keys_distinct (fst (call_reject sid c r reason nm s))"
  by (simp add: keys_distinct_def call_reject_def Let_def distinct_delete)

lemma keys_distinct_call_end:
  "keys_distinct s \<Longrightarrow> keys_distinct (fst (call_end sid c r reason s))"
  by (simp add: keys_distinct_def call_end_def Let_def distinct_delete)

lemma keys_distinct_disconnect_call:
  "keys_distinct s \<Longrightarrow> keys_distinct (fst (disconnect_call u s))"
  by (simp add: keys_distinct_def disconnect_call_def Let_def distinct_delete
      split: lookup.splits)

lemma keys_distinct_disconnect:
  "keys_distinct s \<Longrightarrow> keys_distinct (fst (disconnect sid oc s))"
proof -
  assume a: "keys_distinct s"
  have "\<And>u. keys_distinct (fst (disconnect_call u s))"
    using a by (rule keys_distinct_disconnect_call)
  then show ?thesis
    using a
    by (simp add: disconnect_def keys_distinct_def split_beta split: option.splits)
qed

lemma keys_distinct_step:
  "keys_distinct s \<Longrightarrow> keys_distinct (fst (step e s))"
  by (cases e)
    (simp_all add: keys_distinct_user_online keys_distinct_user_offline
      keys_distinct_call_initiate keys_distinct_call_accept keys_distinct_call_reject
      keys_distinct_call_end keys_distinct_timer_fire keys_distinct_disconnect)

lemma keys_distinct_exec:
  "keys_distinct s \<Longrightarrow> keys_distinct (fst (exec s es))"
proof (induction es arbitrary: s)
  case Nil
  then show ?case by simp
next
  case (Cons e es)
  have "keys_distinct (fst (step e s))"
    using Cons.prems by (rule keys_distinct_step)
  then have "keys_distinct (fst (exec (fst (step e s)) es))"
    by (rule Cons.IH)
  then show ?case
    by (simp add: split_beta)
qed

lemma keys_distinct_init: "keys_distinct init_state"
  by (simp add: keys_distinct_def init_state_def)

lemma distinct_keys_filter_le_1:
  "distinct (map fst xs) \<Longrightarrow> length (filter (\<lambda>p. fst p = k) xs) \<le> 1"
proof (induction xs)
  case Nil
  then show ?case by simp
next
  case (Cons p xs)
  show ?case
  proof (cases "fst p = k")
    case True
    with Cons.prems have "k \<notin> fst ` set xs" by auto
    then have "filter (\<lambda>p. fst p = k) xs = []"
      by (auto simp add: filter_empty_conv)
    with True show ?thesis by simp
  next
    case False
    with Cons show ?thesis by simp
  qed
qed

text \<open>
  C1. In every state reached from the empty tables by any sequence of user-online,
  user-offline, call:initiate, call:accept, call:reject, call:end, timer-fire and
  disconnect events, the active-call table holds at most one entry under each user id.
\<close>

theorem at_most_one_call_session_per_user:
  "length (entries_of uid (fst (exec init_state evs))) \<le> 1"
proof -
  have "keys_distinct (fst (exec init_state evs))"
    using keys_distinct_init by (rule keys_distinct_exec)
  then show ?thesis
    unfolding entries_of_def keys_distinct_def by (rule distinct_keys_filter_le_1)
qed

subsection \<open>Lookups after an update\<close>

lemma map_of_delete_if:
  "map_of (AList.delete k al) k' = (if k' = k then None else map_of al k')"
  by (simp add: delete_conv')

lemma map_of_update_if:
  "map_of (AList.update k v al) k' = (if k' = k then Some v else map_of al k')"
  by (simp add: update_conv')

lemma map_of_map_entry_if:
  "map_of (AList.map_entry k f al) k' =
     (if k' = k then map_option f (map_of al k) else map_of al k')"
  by (simp add: map_of_map_entry split: option.splits)

subsection \<open>What a successful \<^verbatim>\<open>call:initiate\<close> leaves behind\<close>

lemma call_initiate_timers:
  assumes "initiate_passes c r s"
  shows "timers (fst (call_initiate sid c r offer nm pr ch n0 n1 n2 s)) =
     AList.update (nextTimer s)
       \<lparr>tm_delay = 30000, tm_callerId = c, tm_receiverId = r\<rparr> (timers s)"
  using assms
  by (auto simp add: initiate_passes_def call_initiate_def Let_def)


lemma call_initiate_registry:
  "userSockets (fst (call_initiate sid c r offer nm pr ch n0 n1 n2 s)) = userSockets s \<and>
   userLoginTime (fst (call_initiate sid c r offer nm pr ch n0 n1 n2 s)) = userLoginTime s \<and>
   sockets (fst (call_initiate sid c r offer nm pr ch n0 n1 n2 s)) = sockets s"
  by (simp add: call_initiate_def Let_def)

lemma call_initiate_table:
  assumes "initiate_passes c r s"
  shows "map_of (activeCallSessions (fst (call_initiate sid c r offer nm pr ch n0 n1 n2 s))) k =
     (if k = r then Some (new_session c r n0 Ringing n2 (nextTimer s))
      else if k = c then Some (new_session c r n0 Calling n1 (nextTimer s))
      else map_of (activeCallSessions s) k)"
  using assms
  by (auto simp add: initiate_passes_def call_initiate_def Let_def new_session_def
      map_of_delete_if map_of_update_if map_of_map_entry_if)


subsection \<open>The no-answer timer\<close>

lemma callback_ringing:
  assumes "is_ringing (map_of (activeCallSessions s) r)"
  shows "noAnswerTimeout_callback c r s =
     (s\<lparr>activeCallSessions := AList.delete r (AList.delete c (activeCallSessions s))\<rparr>,
      [Emit (ToUserRoom c) (CallEnded c r ''no_answer''),
       Emit (ToUserRoom r) (CallEnded c r ''no_answer_timeout'')])"
  using assms
  by (cases "map_of (activeCallSessions s) r")
    (simp_all add: is_ringing_def noAnswerTimeout_callback_def)

lemma callback_not_ringing:
  assumes "\<not> is_ringing (map_of (activeCallSessions s) r)"
  shows "noAnswerTimeout_callback c r s = (s, [])"
  using assms
  by (cases "map_of (activeCallSessions s) r")
    (simp_all add: is_ringing_def noAnswerTimeout_callback_def)

lemma timer_fire_not_armed:
  "map_of (timers s) t = None \<Longrightarrow> timer_fire t s = (s, [])"
  by (simp add: timer_fire_def)

lemma accept_receiver_connected:
  assumes "map_of (activeCallSessions s) c \<noteq> None" "map_of (activeCallSessions s) r \<noteq> None"
  shows "is_connected (map_of (activeCallSessions (fst (call_accept sid c r ans rn s))) r)"
  using assms
  by (auto simp add: call_accept_def Let_def lookup_session_def is_connected_def
      map_of_map_entry_if connect_def)

lemma connected_not_ringing: "is_connected e \<Longrightarrow> \<not> is_ringing e"
  by (simp add: is_connected_def is_ringing_def split: option.splits)

lemma reject_receiver_absent:
  "map_of (activeCallSessions (fst (call_reject sid c r reason rn s))) r = None"
  by (simp add: call_reject_def Let_def map_of_delete_if)

lemma clear_timeout_removes:
  "map_of (clear_timeout (Some t) tm) t = None"
  by (simp add: clear_timeout_def map_of_delete_if)

lemma clear_timeout_keeps_none:
  "map_of tm t = None \<Longrightarrow> map_of (clear_timeout h tm) t = None"
  by (simp add: clear_timeout_def map_of_delete_if split: option.splits)

lemma accept_clears_receiver_timer:
  assumes "map_of (activeCallSessions s) c \<noteq> None"
    and "map_of (activeCallSessions s) r = Some e" and "noAnswerTimeout e = Some t"
  shows "map_of (timers (fst (call_accept sid c r ans rn s))) t = None"
  using assms
  by (auto simp add: call_accept_def Let_def lookup_session_def lookup_timeout_def
      clear_timeout_removes)

lemma reject_clears_receiver_timer:
  assumes "map_of (activeCallSessions s) r = Some e" and "noAnswerTimeout e = Some t"
  shows "map_of (timers (fst (call_reject sid c r reason rn s))) t = None"
  using assms
  by (simp add: call_reject_def Let_def session_timeout_def clear_timeout_removes)

subsection \<open>Evaluating the example states\<close>

lemmas handler_defs =
  user_online_def user_offline_def call_initiate_def call_accept_def call_reject_def
  call_end_def timer_fire_def noAnswerTimeout_callback_def disconnect_def disconnect_call_def
  other_participant_def clear_timeout_def session_timeout_def is_connected_def is_pending_def
  pair_matches_def connect_def epoch_matches_def login_time_or_now_def init_state_def Let_def
  lookup_session_def session_connected_def session_pending_def socket_registered_def
  lookup_timeout_def mark_connected_def inherited_def object_prototype_members_def

lemma ex_online_eval:
  "ex_online =
     \<lparr>activeCallSessions = [], userSockets = [(user ''A'', 0), (user ''B'', 1)],
      userLoginTime = [(user ''A'', 7), (user ''B'', 101)],
      sockets = (\<lambda>sid. \<lparr>sock_userId = None, sock_loginTime = None\<rparr>)
        (0 := \<lparr>sock_userId = Some (user ''A''), sock_loginTime = Some 7\<rparr>,
         1 := \<lparr>sock_userId = Some (user ''B''), sock_loginTime = Some 101\<rparr>),
      timers = [], nextTimer = 0, connectedMembers = []\<rparr>"
  by (simp add: ex_online_def handler_defs)

subsection \<open>A cancelled timer stays cancelled\<close>

lemma timer_cancelled_callback:
  "timer_cancelled t s \<Longrightarrow> timer_cancelled t (fst (noAnswerTimeout_callback c r s))"
  by (simp add: timer_cancelled_def noAnswerTimeout_callback_def split: option.splits)

lemma timer_cancelled_timer_fire:
  assumes "timer_cancelled t s"
  shows "timer_cancelled t (fst (timer_fire t' s))"
proof (cases "map_of (timers s) t'")
  case None
  with assms show ?thesis by (simp add: timer_fire_def)
next
  case (Some cl)
  from assms have "timer_cancelled t (s\<lparr>timers := AList.delete t' (timers s)\<rparr>)"
    by (simp add: timer_cancelled_def map_of_delete_if)
  then show ?thesis
    using Some by (simp add: timer_fire_def timer_cancelled_callback)
qed

lemma timer_cancelled_user_online:
  "timer_cancelled t s \<Longrightarrow> timer_cancelled t (fst (user_online sid uid lt now oc s))"
  by (simp add: timer_cancelled_def user_online_def Let_def)

lemma timer_cancelled_user_offline:
  "timer_cancelled t s \<Longrightarrow> timer_cancelled t (fst (user_offline sid uid oc s))"
  by (simp add: timer_cancelled_def user_offline_def)

lemma timer_cancelled_call_initiate:
  "timer_cancelled t s \<Longrightarrow>
   timer_cancelled t (fst (call_initiate sid c r offer nm pr ch n0 n1 n2 s))"
  by (simp add: timer_cancelled_def call_initiate_def Let_def map_of_update_if
      split: option.splits)

lemma timer_cancelled_call_accept:
  "timer_cancelled t s \<Longrightarrow> timer_cancelled t (fst (call_accept sid c r ans nm s))"
  by (simp add: timer_cancelled_def call_accept_def Let_def clear_timeout_keeps_none)

lemma timer_cancelled_call_reject:
  "timer_cancelled t s \<Longrightarrow> timer_cancelled t (fst (call_reject sid c r reason nm s))"
  by (simp add: timer_cancelled_def call_reject_def Let_def clear_timeout_keeps_none)

lemma timer_cancelled_call_end:
  "timer_cancelled t s \<Longrightarrow> timer_cancelled t (fst (call_end sid c r reason s))"
  by (simp add: timer_cancelled_def call_end_def Let_def clear_timeout_keeps_none)

lemma timer_cancelled_disconnect_call:
  "timer_cancelled t s \<Longrightarrow> timer_cancelled t (fst (disconnect_call u s))"
  by (simp add: timer_cancelled_def disconnect_call_def Let_def clear_timeout_keeps_none
      split: lookup.splits)

lemma timer_cancelled_disconnect:
  assumes "timer_cancelled t s"
  shows "timer_cancelled t (fst (disconnect sid oc s))"
proof -
  have "\<And>u. timer_cancelled t (fst (disconnect_call u s))"
    using assms by (rule timer_cancelled_disconnect_call)
  then show ?thesis
    using assms
    by (simp add: disconnect_def timer_cancelled_def split_beta split: option.splits)
qed

lemma timer_cancelled_step:
  "timer_cancelled t s \<Longrightarrow> timer_cancelled t (fst (step e s))"
  by (cases e)
    (simp_all add: timer_cancelled_user_online timer_cancelled_user_offline
      timer_cancelled_call_initiate timer_cancelled_call_accept timer_cancelled_call_reject
      timer_cancelled_call_end timer_cancelled_timer_fire timer_cancelled_disconnect)

lemma timer_cancelled_exec:
  "timer_cancelled t s \<Longrightarrow> timer_cancelled t (fst (exec s es))"
proof (induction es arbitrary: s)
  case Nil
  then show ?case by simp
next
  case (Cons e es)
  have "timer_cancelled t (fst (step e s))"
    using Cons.prems by (rule timer_cancelled_step)
  then have "timer_cancelled t (fst (exec (fst (step e s)) es))"
    by (rule Cons.IH)
  then show ?case
    by (simp add: split_beta)
qed

lemma timer_cancelled_fire:
  "timer_cancelled t s \<Longrightarrow> timer_fire t s = (s, [])"
  by (simp add: timer_cancelled_def timer_fire_not_armed)

lemma accept_cancels:
  assumes "map_of (activeCallSessions s) c \<noteq> None"
    and "holds_timer (map_of (activeCallSessions s) r) t" and "t < nextTimer s"
  shows "timer_cancelled t (fst (call_accept sid c r ans rn s))"
proof -
  from assms(2) obtain e where e: "map_of (activeCallSessions s) r = Some e"
    and h: "noAnswerTimeout e = Some t"
    by (auto simp add: holds_timer_def split: option.splits)
  have "map_of (timers (fst (call_accept sid c r ans rn s))) t = None"
    using assms(1) e h by (rule accept_clears_receiver_timer)
  moreover have "nextTimer (fst (call_accept sid c r ans rn s)) = nextTimer s"
    by (simp add: call_accept_def Let_def)
  ultimately show ?thesis
    using assms(3) by (simp add: timer_cancelled_def)
qed

lemma reject_cancels:
  assumes "holds_timer (map_of (activeCallSessions s) r) t" and "t < nextTimer s"
  shows "timer_cancelled t (fst (call_reject sid c r reason rn s))"
proof -
  from assms(1) obtain e where e: "map_of (activeCallSessions s) r = Some e"
    and h: "noAnswerTimeout e = Some t"
    by (auto simp add: holds_timer_def split: option.splits)
  have "map_of (timers (fst (call_reject sid c r reason rn s))) t = None"
    using e h by (rule reject_clears_receiver_timer)
  moreover have "nextTimer (fst (call_reject sid c r reason rn s)) = nextTimer s"
    by (simp add: call_reject_def Let_def)
  ultimately show ?thesis
    using assms(2) by (simp add: timer_cancelled_def)
qed

lemma timer_fire_armed:
  assumes "map_of (timers s) t = Some cl" "tm_callerId cl = c" "tm_receiverId cl = r"
  shows "is_ringing (map_of (activeCallSessions s) r) \<Longrightarrow>
      timer_fire t s =
        (s\<lparr>timers := AList.delete t (timers s),
           activeCallSessions := AList.delete r (AList.delete c (activeCallSessions s))\<rparr>,
         [Emit (ToUserRoom c) (CallEnded c r ''no_answer''),
          Emit (ToUserRoom r) (CallEnded c r ''no_answer_timeout'')])"
    and "\<not> is_ringing (map_of (activeCallSessions s) r) \<Longrightarrow>
      timer_fire t s = (s\<lparr>timers := AList.delete t (timers s)\<rparr>, [])"
proof -
  assume "is_ringing (map_of (activeCallSessions s) r)"
  then have "is_ringing (map_of (activeCallSessions (s\<lparr>timers := AList.delete t (timers s)\<rparr>)) r)"
    by simp
  then show "timer_fire t s =
        (s\<lparr>timers := AList.delete t (timers s),
           activeCallSessions := AList.delete r (AList.delete c (activeCallSessions s))\<rparr>,
         [Emit (ToUserRoom c) (CallEnded c r ''no_answer''),
          Emit (ToUserRoom r) (CallEnded c r ''no_answer_timeout'')])"
    using assms by (simp add: timer_fire_def callback_ringing)
next
  assume "\<not> is_ringing (map_of (activeCallSessions s) r)"
  then have "\<not> is_ringing (map_of (activeCallSessions (s\<lparr>timers := AList.delete t (timers s)\<rparr>)) r)"
    by simp
  then show "timer_fire t s = (s\<lparr>timers := AList.delete t (timers s)\<rparr>, [])"
    using assms by (simp add: timer_fire_def callback_not_ringing)
qed


text \<open>
  The life of one call. Let \<open>t\<close> be the timer armed by a successful \<^verbatim>\<open>initiate(c, r)\<close>: it is armed with a
  delay of 30000 ms, the receiver's entry is ringing, and both new entries hold \<open>t\<close>.
  Whenever \<open>t\<close> fires in a state where the entry under \<open>r\<close> has status ringing, the
  entries under \<open>c\<close> and \<open>r\<close> are deleted and exactly two events are emitted,
  \<^verbatim>\<open>call:ended\<close> with reason \<^verbatim>\<open>no_answer\<close> to the caller and with reason
  \<^verbatim>\<open>no_answer_timeout\<close> to the receiver. When it fires in a state where that entry is not
  ringing, which is the case right after a successful \<^verbatim>\<open>accept(c, r)\<close> (connected) and
  right after \<^verbatim>\<open>reject(c, r)\<close> (absent), no entry changes and nothing is emitted.
  Moreover an accept or a reject of the call whose entries hold \<open>t\<close> clears \<open>t\<close>, and \<open>t\<close>
  is never armed again: in every later state the firing of \<open>t\<close> changes nothing and emits
  nothing.
\<close>

proposition no_answer_timer_lifecycle:
  assumes passes: "initiate_passes c r s0"
    and s1: "s1 = fst (call_initiate sid c r offer nm pr ch n0 n1 n2 s0)"
    and t: "t = nextTimer s0"
  shows
    "map_of (timers s1) t = Some \<lparr>tm_delay = 30000, tm_callerId = c, tm_receiverId = r\<rparr> \<and>
     is_ringing (map_of (activeCallSessions s1) r) \<and>
     holds_timer (map_of (activeCallSessions s1) c) t \<and>
     holds_timer (map_of (activeCallSessions s1) r) t \<and>
     (\<forall>s. map_of (timers s) t = Some \<lparr>tm_delay = 30000, tm_callerId = c, tm_receiverId = r\<rparr> \<and>
          is_ringing (map_of (activeCallSessions s) r) \<longrightarrow>
          timer_fire t s =
            (s\<lparr>timers := AList.delete t (timers s),
               activeCallSessions := AList.delete r (AList.delete c (activeCallSessions s))\<rparr>,
             [Emit (ToUserRoom c) (CallEnded c r ''no_answer''),
              Emit (ToUserRoom r) (CallEnded c r ''no_answer_timeout'')]) \<and>
          map_of (activeCallSessions (fst (timer_fire t s))) c = None \<and>
          map_of (activeCallSessions (fst (timer_fire t s))) r = None) \<and>
     (\<forall>s. map_of (timers s) t = Some \<lparr>tm_delay = 30000, tm_callerId = c, tm_receiverId = r\<rparr> \<and>
          \<not> is_ringing (map_of (activeCallSessions s) r) \<longrightarrow>
          timer_fire t s = (s\<lparr>timers := AList.delete t (timers s)\<rparr>, [])) \<and>
     (\<forall>s. map_of (activeCallSessions s) c \<noteq> None \<and> map_of (activeCallSessions s) r \<noteq> None \<longrightarrow>
          \<not> is_ringing (map_of (activeCallSessions (fst (call_accept sid' c r ans rn s))) r)) \<and>
     (\<forall>s. \<not> is_ringing (map_of (activeCallSessions (fst (call_reject sid' c r reason rn s))) r)) \<and>
     (\<forall>s evs. map_of (activeCallSessions s) c \<noteq> None \<and>
          holds_timer (map_of (activeCallSessions s) r) t \<and> t < nextTimer s \<longrightarrow>
          timer_fire t (fst (exec (fst (call_accept sid' c r ans rn s)) evs)) =
            (fst (exec (fst (call_accept sid' c r ans rn s)) evs), [])) \<and>
     (\<forall>s evs. holds_timer (map_of (activeCallSessions s) r) t \<and> t < nextTimer s \<longrightarrow>
          timer_fire t (fst (exec (fst (call_reject sid' c r reason rn s)) evs)) =
            (fst (exec (fst (call_reject sid' c r reason rn s)) evs), [])) \<and>
     (\<forall>evs. timer_fire t (fst (exec (fst (call_accept sid' c r ans rn s1)) evs)) =
            (fst (exec (fst (call_accept sid' c r ans rn s1)) evs), [])) \<and>
     (\<forall>evs. timer_fire t (fst (exec (fst (call_reject sid' c r reason rn s1)) evs)) =
            (fst (exec (fst (call_reject sid' c r reason rn s1)) evs), []))"
proof -
  let ?cl = "\<lparr>tm_delay = 30000, tm_callerId = c, tm_receiverId = r\<rparr>"
  have tbl: "\<And>k. map_of (activeCallSessions s1) k =
     (if k = r then Some (new_session c r n0 Ringing n2 t)
      else if k = c then Some (new_session c r n0 Calling n1 t)
      else map_of (activeCallSessions s0) k)"
    unfolding s1 t using passes by (rule call_initiate_table)
  have armed: "map_of (timers s1) t = Some ?cl"
    unfolding s1 t by (simp add: call_initiate_timers [OF passes] map_of_update_if)
  have ringing: "is_ringing (map_of (activeCallSessions s1) r)"
    by (simp add: tbl is_ringing_def new_session_def)
  have hold_c: "holds_timer (map_of (activeCallSessions s1) c) t"
    by (simp add: tbl holds_timer_def new_session_def)
  have hold_r: "holds_timer (map_of (activeCallSessions s1) r) t"
    by (simp add: tbl holds_timer_def new_session_def)
  have present_c: "map_of (activeCallSessions s1) c \<noteq> None"
    by (simp add: tbl)
  have next1: "t < nextTimer s1"
    unfolding s1 t using passes
    by (auto simp add: initiate_passes_def call_initiate_def Let_def)
  have cc: "tm_callerId ?cl = c" "tm_receiverId ?cl = r"
    by simp_all
  have fire: "\<forall>s. map_of (timers s) t = Some ?cl \<and>
          is_ringing (map_of (activeCallSessions s) r) \<longrightarrow>
          timer_fire t s =
            (s\<lparr>timers := AList.delete t (timers s),
               activeCallSessions := AList.delete r (AList.delete c (activeCallSessions s))\<rparr>,
             [Emit (ToUserRoom c) (CallEnded c r ''no_answer''),
              Emit (ToUserRoom r) (CallEnded c r ''no_answer_timeout'')]) \<and>
          map_of (activeCallSessions (fst (timer_fire t s))) c = None \<and>
          map_of (activeCallSessions (fst (timer_fire t s))) r = None"
  proof (intro allI impI, elim conjE)
    fix s :: coordinator
    assume a: "map_of (timers s) t = Some ?cl" and b: "is_ringing (map_of (activeCallSessions s) r)"
    have "timer_fire t s =
            (s\<lparr>timers := AList.delete t (timers s),
               activeCallSessions := AList.delete r (AList.delete c (activeCallSessions s))\<rparr>,
             [Emit (ToUserRoom c) (CallEnded c r ''no_answer''),
              Emit (ToUserRoom r) (CallEnded c r ''no_answer_timeout'')])"
      by (rule timer_fire_armed(1) [OF a cc b])
    then show "timer_fire t s =
            (s\<lparr>timers := AList.delete t (timers s),
               activeCallSessions := AList.delete r (AList.delete c (activeCallSessions s))\<rparr>,
             [Emit (ToUserRoom c) (CallEnded c r ''no_answer''),
              Emit (ToUserRoom r) (CallEnded c r ''no_answer_timeout'')]) \<and>
          map_of (activeCallSessions (fst (timer_fire t s))) c = None \<and>
          map_of (activeCallSessions (fst (timer_fire t s))) r = None"
      by (simp add: map_of_delete_if)
  qed
  have idle: "\<forall>s. map_of (timers s) t = Some ?cl \<and>
          \<not> is_ringing (map_of (activeCallSessions s) r) \<longrightarrow>
          timer_fire t s = (s\<lparr>timers := AList.delete t (timers s)\<rparr>, [])"
  proof (intro allI impI, elim conjE)
    fix s :: coordinator
    assume a: "map_of (timers s) t = Some ?cl" and b: "\<not> is_ringing (map_of (activeCallSessions s) r)"
    show "timer_fire t s = (s\<lparr>timers := AList.delete t (timers s)\<rparr>, [])"
      by (rule timer_fire_armed(2) [OF a cc b])
  qed
  have acc_state: "\<forall>s. map_of (activeCallSessions s) c \<noteq> None \<and> map_of (activeCallSessions s) r \<noteq> None \<longrightarrow>
          \<not> is_ringing (map_of (activeCallSessions (fst (call_accept sid' c r ans rn s))) r)"
    by (intro allI impI, elim conjE, rule connected_not_ringing, rule accept_receiver_connected)
  have rej_state: "\<forall>s. \<not> is_ringing (map_of (activeCallSessions (fst (call_reject sid' c r reason rn s))) r)"
    by (simp add: reject_receiver_absent is_ringing_def)
  have acc_later: "timer_fire t (fst (exec (fst (call_accept sid' c r ans rn s)) evs)) =
            (fst (exec (fst (call_accept sid' c r ans rn s)) evs), [])"
    if "map_of (activeCallSessions s) c \<noteq> None"
      and "holds_timer (map_of (activeCallSessions s) r) t" and "t < nextTimer s" for s evs
    by (rule timer_cancelled_fire, rule timer_cancelled_exec, rule accept_cancels [OF that])
  have rej_later: "timer_fire t (fst (exec (fst (call_reject sid' c r reason rn s)) evs)) =
            (fst (exec (fst (call_reject sid' c r reason rn s)) evs), [])"
    if "holds_timer (map_of (activeCallSessions s) r) t" and "t < nextTimer s" for s evs
    by (rule timer_cancelled_fire, rule timer_cancelled_exec, rule reject_cancels [OF that])
  have acc_all: "\<forall>s evs. map_of (activeCallSessions s) c \<noteq> None \<and>
          holds_timer (map_of (activeCallSessions s) r) t \<and> t < nextTimer s \<longrightarrow>
          timer_fire t (fst (exec (fst (call_accept sid' c r ans rn s)) evs)) =
            (fst (exec (fst (call_accept sid' c r ans rn s)) evs), [])"
    by (intro allI impI, elim conjE, rule acc_later)
  have rej_all: "\<forall>s evs. holds_timer (map_of (activeCallSessions s) r) t \<and> t < nextTimer s \<longrightarrow>
          timer_fire t (fst (exec (fst (call_reject sid' c r reason rn s)) evs)) =
            (fst (exec (fst (call_reject sid' c r reason rn s)) evs), [])"
    by (intro allI impI, elim conjE, rule rej_later)
  have acc1: "\<forall>evs. timer_fire t (fst (exec (fst (call_accept sid' c r ans rn s1)) evs)) =
            (fst (exec (fst (call_accept sid' c r ans rn s1)) evs), [])"
    by (intro allI, rule acc_later [OF present_c hold_r next1])
  have rej1: "\<forall>evs. timer_fire t (fst (exec (fst (call_reject sid' c r reason rn s1)) evs)) =
            (fst (exec (fst (call_reject sid' c r reason rn s1)) evs), [])"
    by (intro allI, rule rej_later [OF hold_r next1])
  show ?thesis
    by (intro conjI)
      (rule armed ringing hold_c hold_r fire idle acc_state rej_state acc_all rej_all acc1 rej1)+
qed

proposition no_answer_timer_lifecycle_example:
  "initiate_passes (user ''A'') (user ''B'') ex_online \<and>
   snd (timer_fire (nextTimer ex_online)
          (fst (call_initiate 0 (user ''A'') (user ''B'') ''offer'' ''Ann'' ''pic'' ''chat'' 5 5 5 ex_online))) =
     [Emit (ToUserRoom (user ''A'')) (CallEnded (user ''A'') (user ''B'') ''no_answer''),
      Emit (ToUserRoom (user ''B'')) (CallEnded (user ''A'') (user ''B'') ''no_answer_timeout'')] \<and>
   map_of (activeCallSessions (fst (timer_fire (nextTimer ex_online)
          (fst (call_initiate 0 (user ''A'') (user ''B'') ''offer'' ''Ann'' ''pic'' ''chat'' 5 5 5 ex_online))))) (user ''A'') = None \<and>
   map_of (activeCallSessions (fst (timer_fire (nextTimer ex_online)
          (fst (call_initiate 0 (user ''A'') (user ''B'') ''offer'' ''Ann'' ''pic'' ''chat'' 5 5 5 ex_online))))) (user ''B'') = None \<and>
   snd (timer_fire (nextTimer ex_online)
          (fst (exec (fst (call_accept 1 (user ''A'') (user ''B'') ''answer'' ''Bob''
            (fst (call_initiate 0 (user ''A'') (user ''B'') ''offer'' ''Ann'' ''pic'' ''chat'' 5 5 5 ex_online))))
            [CallEnd 0 (user ''A'') (user ''B'') ''bye'',
             CallInitiate 2 (user ''C'') (user ''B'') ''offer'' ''Cy'' ''pic'' ''chat'' 6 6 6]))) = [] \<and>
   snd (timer_fire (nextTimer ex_online)
          (fst (exec (fst (call_reject 1 (user ''A'') (user ''B'') ''declined'' ''Bob''
            (fst (call_initiate 0 (user ''A'') (user ''B'') ''offer'' ''Ann'' ''pic'' ''chat'' 5 5 5 ex_online))))
            [CallInitiate 2 (user ''C'') (user ''B'') ''offer'' ''Cy'' ''pic'' ''chat'' 6 6 6]))) = []"
proof -
  have p: "initiate_passes (user ''A'') (user ''B'') ex_online"
    by (simp add: ex_online_eval initiate_passes_def lookup_defs)
  note th = no_answer_timer_lifecycle [OF p refl refl, of 0 "''offer''" "''Ann''" "''pic''" "''chat''" 5 5 5
      1 "''answer''" "''Bob''" "''declined''"]
  let ?s1 = "fst (call_initiate 0 (user ''A'') (user ''B'') ''offer'' ''Ann'' ''pic'' ''chat'' 5 5 5 ex_online)"
  from th have a: "map_of (timers ?s1) (nextTimer ex_online) =
      Some \<lparr>tm_delay = 30000, tm_callerId = (user ''A''), tm_receiverId = (user ''B'')\<rparr>"
    and b: "is_ringing (map_of (activeCallSessions ?s1) (user ''B''))"
    by blast+
  from th have "map_of (timers ?s1) (nextTimer ex_online) =
      Some \<lparr>tm_delay = 30000, tm_callerId = (user ''A''), tm_receiverId = (user ''B'')\<rparr> \<and>
          is_ringing (map_of (activeCallSessions ?s1) (user ''B'')) \<longrightarrow>
          timer_fire (nextTimer ex_online) ?s1 =
            (?s1\<lparr>timers := AList.delete (nextTimer ex_online) (timers ?s1),
               activeCallSessions := AList.delete (user ''B'') (AList.delete (user ''A'') (activeCallSessions ?s1))\<rparr>,
             [Emit (ToUserRoom (user ''A'')) (CallEnded (user ''A'') (user ''B'') ''no_answer''),
              Emit (ToUserRoom (user ''B'')) (CallEnded (user ''A'') (user ''B'') ''no_answer_timeout'')]) \<and>
          map_of (activeCallSessions (fst (timer_fire (nextTimer ex_online) ?s1))) (user ''A'') = None \<and>
          map_of (activeCallSessions (fst (timer_fire (nextTimer ex_online) ?s1))) (user ''B'') = None"
    by blast
  with a b have f: "timer_fire (nextTimer ex_online) ?s1 =
            (?s1\<lparr>timers := AList.delete (nextTimer ex_online) (timers ?s1),
               activeCallSessions := AList.delete (user ''B'') (AList.delete (user ''A'') (activeCallSessions ?s1))\<rparr>,
             [Emit (ToUserRoom (user ''A'')) (CallEnded (user ''A'') (user ''B'') ''no_answer''),
              Emit (ToUserRoom (user ''B'')) (CallEnded (user ''A'') (user ''B'') ''no_answer_timeout'')]) \<and>
          map_of (activeCallSessions (fst (timer_fire (nextTimer ex_online) ?s1))) (user ''A'') = None \<and>
          map_of (activeCallSessions (fst (timer_fire (nextTimer ex_online) ?s1))) (user ''B'') = None"
    by blast
  from th have g: "\<forall>evs. timer_fire (nextTimer ex_online)
        (fst (exec (fst (call_accept 1 (user ''A'') (user ''B'') ''answer'' ''Bob'' ?s1)) evs)) =
      (fst (exec (fst (call_accept 1 (user ''A'') (user ''B'') ''answer'' ''Bob'' ?s1)) evs), [])"
    and h: "\<forall>evs. timer_fire (nextTimer ex_online)
        (fst (exec (fst (call_reject 1 (user ''A'') (user ''B'') ''declined'' ''Bob'' ?s1)) evs)) =
      (fst (exec (fst (call_reject 1 (user ''A'') (user ''B'') ''declined'' ''Bob'' ?s1)) evs), [])"
    by blast+
  have g': "snd (timer_fire (nextTimer ex_online)
          (fst (exec (fst (call_accept 1 (user ''A'') (user ''B'') ''answer'' ''Bob'' ?s1))
            [CallEnd 0 (user ''A'') (user ''B'') ''bye'',
             CallInitiate 2 (user ''C'') (user ''B'') ''offer'' ''Cy'' ''pic'' ''chat'' 6 6 6]))) = []"
    by (subst g [rule_format]) simp
  have h': "snd (timer_fire (nextTimer ex_online)
          (fst (exec (fst (call_reject 1 (user ''A'') (user ''B'') ''declined'' ''Bob'' ?s1))
            [CallInitiate 2 (user ''C'') (user ''B'') ''offer'' ''Cy'' ''pic'' ''chat'' 6 6 6]))) = []"
    by (subst h [rule_format]) simp
  from f have f1: "snd (timer_fire (nextTimer ex_online) ?s1) =
     [Emit (ToUserRoom (user ''A'')) (CallEnded (user ''A'') (user ''B'') ''no_answer''),
      Emit (ToUserRoom (user ''B'')) (CallEnded (user ''A'') (user ''B'') ''no_answer_timeout'')]"
    and f2: "map_of (activeCallSessions (fst (timer_fire (nextTimer ex_online) ?s1))) (user ''A'') = None"
    and f3: "map_of (activeCallSessions (fst (timer_fire (nextTimer ex_online) ?s1))) (user ''B'') = None"
    by (simp_all add: map_of_delete_if)
  show ?thesis
    by (intro conjI) (rule p f1 f2 f3 g' h')+
qed

subsection \<open>A timer left armed by an evicted call\<close>

lemma ex_stale_timer_eval:
  "fst (exec init_state ex_stale_timer_events) =
     \<lparr>activeCallSessions =
       [(user ''A'', \<lparr>sessionId = ''A-B-8'', callerId = (user ''A''), receiverId = (user ''B''), status = Calling,
               startTime = 8, noAnswerTimeout = Some 2\<rparr>),
        (user ''B'', \<lparr>sessionId = ''A-B-8'', callerId = (user ''A''), receiverId = (user ''B''), status = Ringing,
               startTime = 8, noAnswerTimeout = Some 2\<rparr>)],
      userSockets = [(user ''A'', 0), (user ''B'', 1)],
      userLoginTime = [(user ''A'', 7), (user ''B'', 101)],
      sockets = (\<lambda>sid. \<lparr>sock_userId = None, sock_loginTime = None\<rparr>)
        (0 := \<lparr>sock_userId = Some (user ''A''), sock_loginTime = Some 7\<rparr>,
         1 := \<lparr>sock_userId = Some (user ''B''), sock_loginTime = Some 101\<rparr>),
      timers = [(0, \<lparr>tm_delay = 30000, tm_callerId = (user ''A''), tm_receiverId = (user ''B'')\<rparr>),
                (2, \<lparr>tm_delay = 30000, tm_callerId = (user ''A''), tm_receiverId = (user ''B'')\<rparr>)],
      nextTimer = 3, connectedMembers = []\<rparr>"
  by (simp add: ex_stale_timer_events_def handler_defs show_nat.simps digit_char_def)

text \<open>
  C2. The first half of the claim holds, and so does the second for the call whose
  entries hold the timer (\<open>no_answer_timer_lifecycle\<close>). But the eviction in
  \<^verbatim>\<open>call:initiate\<close> deletes entries without clearing their timer, unlike accept, reject,
  end and disconnect. So after \<^verbatim>\<open>initiate(A, B)\<close> twice, the timer of the first attempt
  stays armed with no entry holding it; \<^verbatim>\<open>reject(A, B)\<close> clears only the second timer; and
  when \<open>A\<close> calls again, the first timer, firing after that reject, finds the receiver
  ringing, deletes both entries of the new call and emits the two \<^verbatim>\<open>call:ended\<close> events.
\<close>

theorem stale_no_answer_timer_fires_after_reject:
  "map_of (timers (fst (exec init_state ex_stale_timer_events))) 0 =
     Some \<lparr>tm_delay = 30000, tm_callerId = (user ''A''), tm_receiverId = (user ''B'')\<rparr> \<and>
   step (TimerFire 0) (fst (exec init_state ex_stale_timer_events)) =
     ((fst (exec init_state ex_stale_timer_events))
        \<lparr>timers := [(2, \<lparr>tm_delay = 30000, tm_callerId = (user ''A''), tm_receiverId = (user ''B'')\<rparr>)],
         activeCallSessions := []\<rparr>,
      [Emit (ToUserRoom (user ''A'')) (CallEnded (user ''A'') (user ''B'') ''no_answer''),
       Emit (ToUserRoom (user ''B'')) (CallEnded (user ''A'') (user ''B'') ''no_answer_timeout'')])"
  by (simp add: ex_stale_timer_eval timer_fire_def noAnswerTimeout_callback_def)

subsection \<open>Presence on connect, and the checks of \<^verbatim>\<open>call:initiate\<close>\<close>

lemma ex_connected_eval:
  "ex_connected = ex_online
     \<lparr>activeCallSessions :=
        [(user ''A'', \<lparr>sessionId = ''A-B-5'', callerId = (user ''A''), receiverId = (user ''B''), status = Connected,
                  startTime = 5, noAnswerTimeout = None\<rparr>),
         (user ''B'', \<lparr>sessionId = ''A-B-5'', callerId = (user ''A''), receiverId = (user ''B''), status = Connected,
                  startTime = 5, noAnswerTimeout = None\<rparr>)],
      nextTimer := 1\<rparr>"
  by (simp add: ex_connected_def ex_online_eval handler_defs show_nat.simps digit_char_def)






text \<open>
  C5 (as stated) fails when the receiver is not registered: the offline check comes first,
  so a caller who is in a connected call and calls an offline user gets
  \<^verbatim>\<open>call:user-offline\<close>, not \<^verbatim>\<open>call:busy\<close>.
\<close>

theorem call_initiate_busy_counterexample:
  "is_connected (map_of (activeCallSessions ex_connected) (user ''A'')) \<and>
   call_initiate 0 (user ''A'') (user ''C'') ''offer'' ''Ann'' ''pic'' ''chat'' 9 9 9 ex_connected =
     (ex_connected, [Emit (ToSocket 0) (CallUserOffline (user ''C'') ''User is offline'')])"
  by (simp add: ex_connected_eval ex_online_eval call_initiate_def is_connected_def lookup_defs)

text \<open>
  C5 (amended). \<^verbatim>\<open>initiate(c, r)\<close> for which the lookup \<^verbatim>\<open>userSockets[r]\<close> is truthy (the
  receiver is registered, or its id names a property inherited from
  \<^verbatim>\<open>Object.prototype\<close>), and where the session lookup of either party has status connected
  (an entry with status connected, or a built-in member that an accept marked connected),
  fails with \<^verbatim>\<open>call:busy\<close> sent to the initiating socket only, with the message
  "User is already on another call" when the receiver's lookup is connected and
  "You are already in a call" otherwise, and the state is unchanged. When the lookup
  \<^verbatim>\<open>userSockets[r]\<close> is falsy the call fails with \<^verbatim>\<open>call:user-offline\<close> instead, the state
  unchanged as well.
\<close>

theorem call_initiate_busy:
  "((map_of (userSockets s) r \<noteq> None \<or> id_name r \<in> set object_prototype_members) \<and>
    (session_connected s r \<or> session_connected s c) \<longrightarrow>
    call_initiate sid c r offer nm pr ch n0 n1 n2 s =
      (s, [Emit (ToSocket sid)
             (CallBusy r (if session_connected s r
                          then ''User is already on another call''
                          else ''You are already in a call''))])) \<and>
   (map_of (userSockets s) r = None \<and> id_name r \<notin> set object_prototype_members \<longrightarrow>
    call_initiate sid c r offer nm pr ch n0 n1 n2 s =
      (s, [Emit (ToSocket sid) (CallUserOffline r ''User is offline'')])) \<and>
   (is_connected (map_of (activeCallSessions s) r) \<longrightarrow> session_connected s r) \<and>
   (is_connected (map_of (activeCallSessions s) c) \<longrightarrow> session_connected s c)"
  by (auto simp add: call_initiate_def socket_registered_def inherited_def
      session_connected_def lookup_session_def is_connected_def split: option.splits)

theorem call_initiate_busy_witness:
  "map_of (userSockets ex_connected) (user ''B'') \<noteq> None \<and>
   is_connected (map_of (activeCallSessions ex_connected) (user ''B'')) \<and>
   call_initiate 7 (user ''Z'') (user ''B'') ''offer'' ''Zed'' ''pic'' ''chat'' 9 9 9 ex_connected =
     (ex_connected,
      [Emit (ToSocket 7) (CallBusy (user ''B'') ''User is already on another call'')]) \<and>
   is_connected (map_of (activeCallSessions ex_connected) (user ''A'')) \<and>
   call_initiate 0 (user ''A'') (user ''constructor'') ''offer'' ''Ann'' ''pic'' ''chat'' 9 9 9
       ex_connected =
     (ex_connected,
      [Emit (ToSocket 0) (CallBusy (user ''constructor'') ''You are already in a call'')]) \<and>
   map_of (userSockets ex_connected) (user ''C'') = None \<and>
   call_initiate 0 (user ''A'') (user ''C'') ''offer'' ''Ann'' ''pic'' ''chat'' 9 9 9 ex_connected =
     (ex_connected, [Emit (ToSocket 0) (CallUserOffline (user ''C'') ''User is offline'')])"
proof -
  have a: "map_of (userSockets ex_connected) (user ''B'') \<noteq> None"
    by (simp add: ex_connected_eval ex_online_eval)
  have b: "is_connected (map_of (activeCallSessions ex_connected) (user ''B''))"
    by (simp add: ex_connected_eval ex_online_eval is_connected_def)
  have b': "is_connected (map_of (activeCallSessions ex_connected) (user ''A''))"
    by (simp add: ex_connected_eval ex_online_eval is_connected_def)
  have c: "map_of (userSockets ex_connected) (user ''C'') = None"
    by (simp add: ex_connected_eval ex_online_eval)
  have d: "id_name (user ''C'') \<notin> set object_prototype_members"
    by (simp add: object_prototype_members_def)
  have e: "id_name (user ''constructor'') \<in> set object_prototype_members"
    by (simp add: object_prototype_members_def)
  have f: "\<not> session_connected ex_connected (user ''constructor'')"
    by (simp add: ex_connected_eval ex_online_eval lookup_defs)
  note th1 = call_initiate_busy [of ex_connected "user ''B''" "user ''Z''" 7 "''offer''" "''Zed''"
      "''pic''" "''chat''" 9 9 9]
  note th2 = call_initiate_busy [of ex_connected "user ''constructor''" "user ''A''" 0 "''offer''"
      "''Ann''" "''pic''" "''chat''" 9 9 9]
  note th3 = call_initiate_busy [of ex_connected "user ''C''" "user ''A''" 0 "''offer''" "''Ann''"
      "''pic''" "''chat''" 9 9 9]
  from th1 a b have g: "call_initiate 7 (user ''Z'') (user ''B'') ''offer'' ''Zed'' ''pic'' ''chat'' 9 9 9
      ex_connected =
     (ex_connected,
      [Emit (ToSocket 7) (CallBusy (user ''B'') ''User is already on another call'')])"
    by simp
  from th2 e b' f have h: "call_initiate 0 (user ''A'') (user ''constructor'') ''offer'' ''Ann'' ''pic''
      ''chat'' 9 9 9 ex_connected =
     (ex_connected,
      [Emit (ToSocket 0) (CallBusy (user ''constructor'') ''You are already in a call'')])"
    by simp
  from th3 c d have i: "call_initiate 0 (user ''A'') (user ''C'') ''offer'' ''Ann'' ''pic'' ''chat'' 9 9 9
      ex_connected =
     (ex_connected, [Emit (ToSocket 0) (CallUserOffline (user ''C'') ''User is offline'')])"
    by simp
  show ?thesis
    by (intro conjI) (rule a b g b' h c i)+
qed

subsection \<open>Ending a call\<close>

lemma call_end_table:
  "map_of (activeCallSessions (fst (call_end sid c r reason s))) k =
     (if (k = c \<and> pair_matches (map_of (activeCallSessions s) c) c r) \<or>
         (k = r \<and> pair_matches (map_of (activeCallSessions s) r) c r)
      then None else map_of (activeCallSessions s) k)"
  by (simp add: call_end_def Let_def map_of_delete_if)

lemma call_end_out:
  "snd (call_end sid c r reason s) =
     (if id_name r \<noteq> [] then [Emit (ToUserRoom r) (CallEnded c r reason)] else []) @
     (if id_name c \<noteq> [] then [Emit (ToUserRoom c) (CallEnded c r reason)] else [])"
  by (simp add: call_end_def Let_def)

lemma call_end_absent:
  assumes "map_of (activeCallSessions s) c = None" "map_of (activeCallSessions s) r = None"
  shows "fst (call_end sid c r reason s) = s"
  using assms
  by (simp add: call_end_def Let_def pair_matches_def session_timeout_def clear_timeout_def)

text \<open>
  C6 (as stated) fails for an empty id: each notification is guarded by the truthiness of
  the id it is addressed to.
\<close>

theorem call_end_notifies_counterexample:
  "call_end 0 (user []) (user ''B'') ''hangup'' init_state =
     (init_state, [Emit (ToUserRoom (user ''B'')) (CallEnded (user []) (user ''B'') ''hangup'')])"
  by (simp add: call_end_def Let_def pair_matches_def session_timeout_def clear_timeout_def
      init_state_def)

text \<open>
  C6 (amended). \<^verbatim>\<open>end(c, r, reason)\<close> removes the entry under \<open>c\<close>, and the entry under \<open>r\<close>,
  only if the pair stored in that entry is \<open>(c, r)\<close>, and changes no other entry. It
  sends \<^verbatim>\<open>call:ended\<close> with the reason to each of \<open>r\<close> and \<open>c\<close> that is a non-empty id,
  whether or not an entry matched: with two non-empty ids both notifications are sent, and
  when neither id has an entry the state is unchanged.
\<close>

theorem call_end_deletes_matching_and_notifies:
  "(\<forall>k. map_of (activeCallSessions (fst (call_end sid c r reason s))) k \<noteq>
          map_of (activeCallSessions s) k \<longrightarrow>
        (k = c \<or> k = r) \<and>
        map_of (activeCallSessions (fst (call_end sid c r reason s))) k = None \<and>
        (\<exists>e. map_of (activeCallSessions s) k = Some e \<and> callerId e = c \<and> receiverId e = r)) \<and>
   (\<forall>k e. (k = c \<or> k = r) \<and> map_of (activeCallSessions s) k = Some e \<and>
        callerId e = c \<and> receiverId e = r \<longrightarrow>
        map_of (activeCallSessions (fst (call_end sid c r reason s))) k = None) \<and>
   snd (call_end sid c r reason s) =
     (if id_name r \<noteq> [] then [Emit (ToUserRoom r) (CallEnded c r reason)] else []) @
     (if id_name c \<noteq> [] then [Emit (ToUserRoom c) (CallEnded c r reason)] else []) \<and>
   (id_name c \<noteq> [] \<and> id_name r \<noteq> [] \<longrightarrow>
      snd (call_end sid c r reason s) =
        [Emit (ToUserRoom r) (CallEnded c r reason), Emit (ToUserRoom c) (CallEnded c r reason)]) \<and>
   (map_of (activeCallSessions s) c = None \<and> map_of (activeCallSessions s) r = None \<longrightarrow>
      fst (call_end sid c r reason s) = s)"
proof (intro conjI allI impI)
  fix k
  assume "map_of (activeCallSessions (fst (call_end sid c r reason s))) k \<noteq>
          map_of (activeCallSessions s) k"
  then show "k = c \<or> k = r"
    and "map_of (activeCallSessions (fst (call_end sid c r reason s))) k = None"
    and "\<exists>e. map_of (activeCallSessions s) k = Some e \<and> callerId e = c \<and> receiverId e = r"
    by (auto simp add: call_end_table pair_matches_def split: if_splits option.splits)
next
  fix k e
  assume "(k = c \<or> k = r) \<and> map_of (activeCallSessions s) k = Some e \<and>
        callerId e = c \<and> receiverId e = r"
  then show "map_of (activeCallSessions (fst (call_end sid c r reason s))) k = None"
    by (auto simp add: call_end_table pair_matches_def)
next
  show "snd (call_end sid c r reason s) =
     (if id_name r \<noteq> [] then [Emit (ToUserRoom r) (CallEnded c r reason)] else []) @
     (if id_name c \<noteq> [] then [Emit (ToUserRoom c) (CallEnded c r reason)] else [])"
    by (rule call_end_out)
next
  assume "id_name c \<noteq> [] \<and> id_name r \<noteq> []"
  then show "snd (call_end sid c r reason s) =
        [Emit (ToUserRoom r) (CallEnded c r reason), Emit (ToUserRoom c) (CallEnded c r reason)]"
    by (simp add: call_end_out)
next
  assume "map_of (activeCallSessions s) c = None \<and> map_of (activeCallSessions s) r = None"
  then show "fst (call_end sid c r reason s) = s"
    by (simp add: call_end_absent)
qed

theorem call_end_deletes_matching_and_notifies_witness:
  "map_of (activeCallSessions ex_connected) (user ''A'') \<noteq> None \<and>
   map_of (activeCallSessions (fst (call_end 0 (user ''A'') (user ''B'') ''hangup'' ex_connected))) (user ''A'') = None \<and>
   map_of (activeCallSessions (fst (call_end 0 (user ''A'') (user ''B'') ''hangup'' ex_connected))) (user ''B'') = None \<and>
   fst (call_end 0 (user ''A'') (user ''B'') ''hangup'' (fst (call_end 0 (user ''A'') (user ''B'') ''hangup'' ex_connected))) =
     fst (call_end 0 (user ''A'') (user ''B'') ''hangup'' ex_connected) \<and>
   snd (call_end 0 (user ''A'') (user ''B'') ''hangup'' (fst (call_end 0 (user ''A'') (user ''B'') ''hangup'' ex_connected))) =
     [Emit (ToUserRoom (user ''B'')) (CallEnded (user ''A'') (user ''B'') ''hangup''),
      Emit (ToUserRoom (user ''A'')) (CallEnded (user ''A'') (user ''B'') ''hangup'')]"
proof -
  let ?s1 = "fst (call_end 0 (user ''A'') (user ''B'') ''hangup'' ex_connected)"
  note th1 = call_end_deletes_matching_and_notifies [of 0 "(user ''A'')" "(user ''B'')" "''hangup''" ex_connected]
  note th2 = call_end_deletes_matching_and_notifies [of 0 "(user ''A'')" "(user ''B'')" "''hangup''" ?s1]
  have a: "map_of (activeCallSessions ex_connected) (user ''A'') =
      Some \<lparr>sessionId = ''A-B-5'', callerId = (user ''A''), receiverId = (user ''B''), status = Connected,
                  startTime = 5, noAnswerTimeout = None\<rparr>"
    and b: "map_of (activeCallSessions ex_connected) (user ''B'') =
      Some \<lparr>sessionId = ''A-B-5'', callerId = (user ''A''), receiverId = (user ''B''), status = Connected,
                  startTime = 5, noAnswerTimeout = None\<rparr>"
    by (simp_all add: ex_connected_eval)
  from th1 a have c: "map_of (activeCallSessions ?s1) (user ''A'') = None" by simp
  from th1 b have d: "map_of (activeCallSessions ?s1) (user ''B'') = None" by simp
  from th2 c d have e: "fst (call_end 0 (user ''A'') (user ''B'') ''hangup'' ?s1) = ?s1" by blast
  from th2 have f: "snd (call_end 0 (user ''A'') (user ''B'') ''hangup'' ?s1) =
     [Emit (ToUserRoom (user ''B'')) (CallEnded (user ''A'') (user ''B'') ''hangup''),
      Emit (ToUserRoom (user ''A'')) (CallEnded (user ''A'') (user ''B'') ''hangup'')]" by simp
  show ?thesis using a c d e f by simp
qed

subsection \<open>Disconnect during a call\<close>









subsection \<open>Accepting a call\<close>




subsection \<open>The epoch guard of user-offline and disconnect\<close>

lemma ex_two_sessions_eval:
  "ex_two_sessions =
     \<lparr>activeCallSessions = [], userSockets = [(user ''u1'', 1)], userLoginTime = [(user ''u1'', 2)],
      sockets = (\<lambda>sid. \<lparr>sock_userId = None, sock_loginTime = None\<rparr>)
        (0 := \<lparr>sock_userId = Some (user ''u1''), sock_loginTime = Some 1\<rparr>,
         1 := \<lparr>sock_userId = Some (user ''u1''), sock_loginTime = Some 2\<rparr>),
      timers = [], nextTimer = 0, connectedMembers = []\<rparr>"
  by (simp add: ex_two_sessions_def handler_defs)

lemma epoch_matches_eq:
  "epoch_matches stored mine \<Longrightarrow> stored = mine \<and> stored \<noteq> None"
  by (simp add: epoch_matches_def split: option.splits)

lemma user_offline_stale:
  "\<not> epoch_matches (map_of (userLoginTime s) uid) (sock_loginTime (sockets s sid)) \<Longrightarrow>
   user_offline sid uid outcome s = (s, [])"
  by (simp add: user_offline_def)

lemma user_offline_current_epoch:
  assumes "epoch_matches (map_of (userLoginTime s) uid) (sock_loginTime (sockets s sid))"
  shows "user_offline sid uid outcome s =
     (s\<lparr>userSockets := AList.delete uid (userSockets s),
        userLoginTime := AList.delete uid (userLoginTime s)\<rparr>,
      StoreUpdate uid Offline None None #
      (if outcome \<noteq> StoreFailed
       then [Emit (ToAllExcept sid) (UserStatusChanged uid Offline None)] else []))"
  using assms by (simp add: user_offline_def)

lemma user_offline_touches:
  assumes "map_of (userLoginTime (fst (user_offline sid uid outcome s))) u \<noteq> map_of (userLoginTime s) u \<or>
     map_of (userSockets (fst (user_offline sid uid outcome s))) u \<noteq> map_of (userSockets s) u \<or>
     (\<exists>tg lt. Emit tg (UserStatusChanged u Offline lt) \<in> set (snd (user_offline sid uid outcome s)))"
  shows "u = uid \<and> epoch_matches (map_of (userLoginTime s) uid) (sock_loginTime (sockets s sid))"
proof (cases "epoch_matches (map_of (userLoginTime s) uid) (sock_loginTime (sockets s sid))")
  case True
  have "u = uid"
  proof (rule ccontr)
    assume n: "u \<noteq> uid"
    have "map_of (userLoginTime (fst (user_offline sid uid outcome s))) u = map_of (userLoginTime s) u"
      using n True by (simp add: user_offline_current_epoch map_of_delete_if)
    moreover
    have "map_of (userSockets (fst (user_offline sid uid outcome s))) u = map_of (userSockets s) u"
      using n True by (simp add: user_offline_current_epoch map_of_delete_if)
    moreover
    have "\<not> (\<exists>tg lt. Emit tg (UserStatusChanged u Offline lt) \<in> set (snd (user_offline sid uid outcome s)))"
      using n True by (simp add: user_offline_current_epoch)
    ultimately show False
      using assms by simp
  qed
  with True show ?thesis by simp
next
  case False
  then have "user_offline sid uid outcome s = (s, [])"
    by (rule user_offline_stale)
  with assms show ?thesis by simp
qed

lemma disconnect_stale:
  assumes "sock_userId (sockets s sid) = Some u"
    and "\<not> epoch_matches (map_of (userLoginTime s) u) (sock_loginTime (sockets s sid))"
  shows "disconnect sid outcome s = (s, [])"
  using assms by (simp add: disconnect_def)

lemma disconnect_no_user:
  "sock_userId (sockets s sid) = None \<Longrightarrow> disconnect sid outcome s = (s, [])"
  by (simp add: disconnect_def)

lemma disconnect_registry:
  assumes "sock_userId (sockets s sid) = Some u"
    and "epoch_matches (map_of (userLoginTime s) u) (sock_loginTime (sockets s sid))"
    and "id_name u \<noteq> []"
  shows "userLoginTime (fst (disconnect sid outcome s)) = AList.delete u (userLoginTime s)"
    and "userSockets (fst (disconnect sid outcome s)) = AList.delete u (userSockets s)"
    and "Emit tg (UserStatusChanged v Offline lt) \<in> set (snd (disconnect sid outcome s)) \<Longrightarrow> v = u"
  using assms
  by (auto simp add: disconnect_def disconnect_call_def Let_def split_beta
      split: lookup.splits if_splits)

lemma disconnect_touches:
  assumes "map_of (userLoginTime (fst (disconnect sid outcome s))) u \<noteq> map_of (userLoginTime s) u \<or>
     map_of (userSockets (fst (disconnect sid outcome s))) u \<noteq> map_of (userSockets s) u \<or>
     (\<exists>tg lt. Emit tg (UserStatusChanged u Offline lt) \<in> set (snd (disconnect sid outcome s)))"
  shows "sock_userId (sockets s sid) = Some u \<and>
     epoch_matches (map_of (userLoginTime s) u) (sock_loginTime (sockets s sid))"
proof (cases "sock_userId (sockets s sid)")
  case None
  with assms show ?thesis by (simp add: disconnect_no_user)
next
  case (Some w)
  show ?thesis
  proof (cases "epoch_matches (map_of (userLoginTime s) w) (sock_loginTime (sockets s sid)) \<and> id_name w \<noteq> []")
    case True
    then have m: "epoch_matches (map_of (userLoginTime s) w) (sock_loginTime (sockets s sid))"
      and n: "id_name w \<noteq> []" by simp_all
    from assms have "u = w"
      using disconnect_registry [OF Some m n]
      by (auto simp add: map_of_delete_if split: if_splits)
    with Some m show ?thesis by simp
  next
    case False
    then have "disconnect sid outcome s = (s, [])"
      using Some by (auto simp add: disconnect_def)
    with assms show ?thesis by simp
  qed
qed

subsection \<open>Accept does not compare the two entries\<close>

lemma connect_idem: "connect (connect x) = connect x"
  by (simp add: connect_def)

lemma call_accept_present:
  assumes "map_of (activeCallSessions s) c = Some ec" "map_of (activeCallSessions s) r = Some er"
  shows "map_of (activeCallSessions (fst (call_accept sid c r ans rn s))) c = Some (connect ec)"
    and "map_of (activeCallSessions (fst (call_accept sid c r ans rn s))) r = Some (connect er)"
    and "snd (call_accept sid c r ans rn s) =
       [Emit (ToUserRoom c) (CallAnswerReceived c r ans rn),
        Emit (ToUserRoom c) (CallAcceptedNotification c r),
        Emit (ToUserRoom r) (CallAcceptedNotification c r)]"
  using assms
  by (auto simp add: call_accept_def Let_def lookup_session_def map_of_map_entry_if connect_idem)

lemma ex_crossed_eval:
  "activeCallSessions (fst (exec init_state ex_crossed_events)) =
     [(user ''A'', \<lparr>sessionId = ''A-B-5'', callerId = (user ''A''), receiverId = (user ''B''), status = Calling,
               startTime = 5, noAnswerTimeout = Some 0\<rparr>),
      (user ''C'', \<lparr>sessionId = ''C-B-6'', callerId = (user ''C''), receiverId = (user ''B''), status = Calling,
               startTime = 6, noAnswerTimeout = Some 1\<rparr>),
      (user ''B'', \<lparr>sessionId = ''C-B-6'', callerId = (user ''C''), receiverId = (user ''B''), status = Ringing,
               startTime = 6, noAnswerTimeout = Some 1\<rparr>)]"
  by (simp add: ex_crossed_events_def handler_defs show_nat.simps digit_char_def)

text \<open>
  C10. \<^verbatim>\<open>accept(c, r)\<close> looks only at whether an entry exists under \<open>c\<close> and under \<open>r\<close>:
  whatever the two entries hold, both become connected with their timer handle removed,
  and the answer is relayed to the caller with the accepted notification to both. In
  particular, after \<^verbatim>\<open>initiate(A, B)\<close> and then \<^verbatim>\<open>initiate(C, B)\<close>, a reachable state,
  \<^verbatim>\<open>accept(A, B)\<close> succeeds on two entries whose session ids differ.
\<close>

theorem call_accept_ignores_session_identity:
  "(\<forall>ec er. map_of (activeCallSessions s) c = Some ec \<and> map_of (activeCallSessions s) r = Some er \<longrightarrow>
      map_of (activeCallSessions (fst (call_accept sid c r ans rn s))) c = Some (connect ec) \<and>
      map_of (activeCallSessions (fst (call_accept sid c r ans rn s))) r = Some (connect er) \<and>
      snd (call_accept sid c r ans rn s) =
        [Emit (ToUserRoom c) (CallAnswerReceived c r ans rn),
         Emit (ToUserRoom c) (CallAcceptedNotification c r),
         Emit (ToUserRoom r) (CallAcceptedNotification c r)]) \<and>
   (\<exists>evs ec er.
      map_of (activeCallSessions (fst (exec init_state evs))) (user ''A'') = Some ec \<and>
      map_of (activeCallSessions (fst (exec init_state evs))) (user ''B'') = Some er \<and>
      sessionId ec \<noteq> sessionId er \<and>
      is_connected (map_of (activeCallSessions
        (fst (call_accept 1 (user ''A'') (user ''B'') ''answer'' ''Bob'' (fst (exec init_state evs))))) (user ''A'')) \<and>
      is_connected (map_of (activeCallSessions
        (fst (call_accept 1 (user ''A'') (user ''B'') ''answer'' ''Bob'' (fst (exec init_state evs))))) (user ''B'')) \<and>
      snd (call_accept 1 (user ''A'') (user ''B'') ''answer'' ''Bob'' (fst (exec init_state evs))) =
        [Emit (ToUserRoom (user ''A'')) (CallAnswerReceived (user ''A'') (user ''B'') ''answer'' ''Bob''),
         Emit (ToUserRoom (user ''A'')) (CallAcceptedNotification (user ''A'') (user ''B'')),
         Emit (ToUserRoom (user ''B'')) (CallAcceptedNotification (user ''A'') (user ''B''))])"
proof (intro conjI allI impI)
  fix ec er
  assume a: "map_of (activeCallSessions s) c = Some ec \<and> map_of (activeCallSessions s) r = Some er"
  then have p: "map_of (activeCallSessions s) c = Some ec"
    and q: "map_of (activeCallSessions s) r = Some er" by simp_all
  show "map_of (activeCallSessions (fst (call_accept sid c r ans rn s))) c = Some (connect ec)"
    by (rule call_accept_present(1) [OF p q])
  show "map_of (activeCallSessions (fst (call_accept sid c r ans rn s))) r = Some (connect er)"
    by (rule call_accept_present(2) [OF p q])
  show "snd (call_accept sid c r ans rn s) =
        [Emit (ToUserRoom c) (CallAnswerReceived c r ans rn),
         Emit (ToUserRoom c) (CallAcceptedNotification c r),
         Emit (ToUserRoom r) (CallAcceptedNotification c r)]"
    by (rule call_accept_present(3) [OF p q])
next
  let ?s = "fst (exec init_state ex_crossed_events)"
  let ?ea = "\<lparr>sessionId = ''A-B-5'', callerId = (user ''A''), receiverId = (user ''B''), status = Calling,
               startTime = 5, noAnswerTimeout = Some 0\<rparr>"
  let ?eb = "\<lparr>sessionId = ''C-B-6'', callerId = (user ''C''), receiverId = (user ''B''), status = Ringing,
               startTime = 6, noAnswerTimeout = Some 1\<rparr>"
  have p: "map_of (activeCallSessions ?s) (user ''A'') = Some ?ea"
    and q: "map_of (activeCallSessions ?s) (user ''B'') = Some ?eb"
    by (simp_all add: ex_crossed_eval)
  have d: "sessionId ?ea \<noteq> sessionId ?eb" by simp
  have "is_connected (map_of (activeCallSessions
        (fst (call_accept 1 (user ''A'') (user ''B'') ''answer'' ''Bob'' ?s))) (user ''A''))"
    and "is_connected (map_of (activeCallSessions
        (fst (call_accept 1 (user ''A'') (user ''B'') ''answer'' ''Bob'' ?s))) (user ''B''))"
    by (simp_all add: call_accept_present [OF p q] is_connected_def connect_def)
  with p q d call_accept_present(3) [OF p q]
  show "\<exists>evs ec er.
      map_of (activeCallSessions (fst (exec init_state evs))) (user ''A'') = Some ec \<and>
      map_of (activeCallSessions (fst (exec init_state evs))) (user ''B'') = Some er \<and>
      sessionId ec \<noteq> sessionId er \<and>
      is_connected (map_of (activeCallSessions
        (fst (call_accept 1 (user ''A'') (user ''B'') ''answer'' ''Bob'' (fst (exec init_state evs))))) (user ''A'')) \<and>
      is_connected (map_of (activeCallSessions
        (fst (call_accept 1 (user ''A'') (user ''B'') ''answer'' ''Bob'' (fst (exec init_state evs))))) (user ''B'')) \<and>
      snd (call_accept 1 (user ''A'') (user ''B'') ''answer'' ''Bob'' (fst (exec init_state evs))) =
        [Emit (ToUserRoom (user ''A'')) (CallAnswerReceived (user ''A'') (user ''B'') ''answer'' ''Bob''),
         Emit (ToUserRoom (user ''A'')) (CallAcceptedNotification (user ''A'') (user ''B'')),
         Emit (ToUserRoom (user ''B'')) (CallAcceptedNotification (user ''A'') (user ''B''))]"
    by blast
qed

theorem call_accept_ignores_session_identity_witness:
  "map_option sessionId (map_of (activeCallSessions (fst (exec init_state ex_crossed_events))) (user ''A'')) =
     Some ''A-B-5'' \<and>
   map_option sessionId (map_of (activeCallSessions (fst (exec init_state ex_crossed_events))) (user ''B'')) =
     Some ''C-B-6'' \<and>
   map_option status (map_of (activeCallSessions
     (fst (call_accept 1 (user ''A'') (user ''B'') ''answer'' ''Bob'' (fst (exec init_state ex_crossed_events))))) (user ''A'')) =
     Some Connected \<and>
   map_option status (map_of (activeCallSessions
     (fst (call_accept 1 (user ''A'') (user ''B'') ''answer'' ''Bob'' (fst (exec init_state ex_crossed_events))))) (user ''B'')) =
     Some Connected \<and>
   snd (call_accept 1 (user ''A'') (user ''B'') ''answer'' ''Bob'' (fst (exec init_state ex_crossed_events))) =
        [Emit (ToUserRoom (user ''A'')) (CallAnswerReceived (user ''A'') (user ''B'') ''answer'' ''Bob''),
         Emit (ToUserRoom (user ''A'')) (CallAcceptedNotification (user ''A'') (user ''B'')),
         Emit (ToUserRoom (user ''B'')) (CallAcceptedNotification (user ''A'') (user ''B''))]"
proof -
  let ?s = "fst (exec init_state ex_crossed_events)"
  let ?ea = "\<lparr>sessionId = ''A-B-5'', callerId = (user ''A''), receiverId = (user ''B''), status = Calling,
               startTime = 5, noAnswerTimeout = Some 0\<rparr>"
  let ?eb = "\<lparr>sessionId = ''C-B-6'', callerId = (user ''C''), receiverId = (user ''B''), status = Ringing,
               startTime = 6, noAnswerTimeout = Some 1\<rparr>"
  have p: "map_of (activeCallSessions ?s) (user ''A'') = Some ?ea"
    and q: "map_of (activeCallSessions ?s) (user ''B'') = Some ?eb"
    by (simp_all add: ex_crossed_eval)
  note th = call_accept_ignores_session_identity [of ?s "(user ''A'')" "(user ''B'')" 1 "''answer''" "''Bob''"]
  from th p q have
    "map_of (activeCallSessions (fst (call_accept 1 (user ''A'') (user ''B'') ''answer'' ''Bob'' ?s))) (user ''A'') = Some (connect ?ea) \<and>
     map_of (activeCallSessions (fst (call_accept 1 (user ''A'') (user ''B'') ''answer'' ''Bob'' ?s))) (user ''B'') = Some (connect ?eb) \<and>
     snd (call_accept 1 (user ''A'') (user ''B'') ''answer'' ''Bob'' ?s) =
        [Emit (ToUserRoom (user ''A'')) (CallAnswerReceived (user ''A'') (user ''B'') ''answer'' ''Bob''),
         Emit (ToUserRoom (user ''A'')) (CallAcceptedNotification (user ''A'') (user ''B'')),
         Emit (ToUserRoom (user ''B'')) (CallAcceptedNotification (user ''A'') (user ''B''))]"
    by blast
  with p q show ?thesis
    by (simp add: connect_def)
qed

subsection \<open>Only a user-offline or disconnect of the current session unregisters a user\<close>

lemma call_handlers_keep_registry:
  "userLoginTime (fst (call_initiate sid c r offer nm pr ch n0 n1 n2 s)) = userLoginTime s"
  "userLoginTime (fst (call_accept sid c r ans rn s)) = userLoginTime s"
  "userLoginTime (fst (call_reject sid c r reason rn s)) = userLoginTime s"
  "userLoginTime (fst (call_end sid c r reason s)) = userLoginTime s"
  "userLoginTime (fst (timer_fire t s)) = userLoginTime s"
  by (simp_all add: call_initiate_def call_accept_def call_reject_def call_end_def timer_fire_def
      noAnswerTimeout_callback_def Let_def split: option.splits)

lemma call_handlers_no_presence:
  "Emit tg (UserStatusChanged u p lt) \<notin> set (snd (call_initiate sid c r offer nm pr ch n0 n1 n2 s))"
  "Emit tg (UserStatusChanged u p lt) \<notin> set (snd (call_accept sid c r ans rn s))"
  "Emit tg (UserStatusChanged u p lt) \<notin> set (snd (call_reject sid c r reason rn s))"
  "Emit tg (UserStatusChanged u p lt) \<notin> set (snd (call_end sid c r reason s))"
  "Emit tg (UserStatusChanged u p lt) \<notin> set (snd (timer_fire t s))"
  by (simp_all add: call_initiate_def call_accept_def call_reject_def call_end_def timer_fire_def
      noAnswerTimeout_callback_def Let_def split: option.splits)

lemma user_online_keeps_registered:
  "map_of (userLoginTime s) u \<noteq> None \<Longrightarrow>
   map_of (userLoginTime (fst (user_online sid uid loginTime now outcome s))) u \<noteq> None"
  by (simp add: user_online_def Let_def map_of_update_if)

lemma user_online_no_offline:
  "Emit tg (UserStatusChanged u Offline lt) \<notin> set (snd (user_online sid uid loginTime now outcome s))"
  by (simp add: user_online_def Let_def)

lemma step_unregisters:
  assumes "(map_of (userLoginTime s) u \<noteq> None \<and> map_of (userLoginTime (fst (step e s))) u = None) \<or>
     (\<exists>tg lt. Emit tg (UserStatusChanged u Offline lt) \<in> set (snd (step e s)))"
  shows "(\<exists>sid outcome. (e = UserOffline sid u outcome \<or>
            (e = Disconnect sid outcome \<and> sock_userId (sockets s sid) = Some u)) \<and>
          epoch_matches (map_of (userLoginTime s) u) (sock_loginTime (sockets s sid)))"
proof (cases e)
  case (UserOnline sid uid loginTime now outcome)
  with assms show ?thesis
    using user_online_keeps_registered [of s u sid uid loginTime now outcome]
    by (auto simp add: user_online_no_offline)
next
  case (UserOffline sid uid outcome)
  from assms have "map_of (userLoginTime (fst (user_offline sid uid outcome s))) u \<noteq> map_of (userLoginTime s) u \<or>
     map_of (userSockets (fst (user_offline sid uid outcome s))) u \<noteq> map_of (userSockets s) u \<or>
     (\<exists>tg lt. Emit tg (UserStatusChanged u Offline lt) \<in> set (snd (user_offline sid uid outcome s)))"
    unfolding UserOffline by auto
  then have "u = uid \<and> epoch_matches (map_of (userLoginTime s) uid) (sock_loginTime (sockets s sid))"
    by (rule user_offline_touches)
  with UserOffline show ?thesis by blast
next
  case (CallInitiate sid c r offer nm pr ch n0 n1 n2)
  with assms show ?thesis
    by (auto simp add: call_handlers_keep_registry call_handlers_no_presence)
next
  case (CallAccept sid c r ans rn)
  with assms show ?thesis
    by (auto simp add: call_handlers_keep_registry call_handlers_no_presence)
next
  case (CallReject sid c r reason rn)
  with assms show ?thesis
    by (auto simp add: call_handlers_keep_registry call_handlers_no_presence)
next
  case (CallEnd sid c r reason)
  with assms show ?thesis
    by (auto simp add: call_handlers_keep_registry call_handlers_no_presence)
next
  case (TimerFire t)
  with assms show ?thesis
    by (auto simp add: call_handlers_keep_registry call_handlers_no_presence)
next
  case (Disconnect sid outcome)
  from assms have "map_of (userLoginTime (fst (disconnect sid outcome s))) u \<noteq> map_of (userLoginTime s) u \<or>
     map_of (userSockets (fst (disconnect sid outcome s))) u \<noteq> map_of (userSockets s) u \<or>
     (\<exists>tg lt. Emit tg (UserStatusChanged u Offline lt) \<in> set (snd (disconnect sid outcome s)))"
    unfolding Disconnect by auto
  then have "sock_userId (sockets s sid) = Some u \<and>
     epoch_matches (map_of (userLoginTime s) u) (sock_loginTime (sockets s sid))"
    by (rule disconnect_touches)
  with Disconnect show ?thesis by blast
qed

lemma disconnect_call_no_presence:
  "Emit tg (UserStatusChanged v p lt) \<notin> set (snd (disconnect_call u s))"
  by (simp add: disconnect_call_def Let_def split: lookup.splits)

lemma disconnect_current_out:
  assumes "sock_userId (sockets s sid) = Some u"
    and "epoch_matches (map_of (userLoginTime s) u) (sock_loginTime (sockets s sid))"
    and "id_name u \<noteq> []"
  shows "snd (disconnect sid outcome s) =
     snd (disconnect_call u s) @ StoreUpdate u Offline None None #
     (if outcome \<noteq> StoreFailed
      then [Emit (ToAllExcept sid) (UserStatusChanged u Offline None)] else [])"
  using assms by (simp add: disconnect_def split_beta)

text \<open>
  C9 (as stated) fails in its last part: a user-offline carrying the stored login time
  removes the registry entry, but the broadcast comes after the awaited store write, and
  when that write is rejected no offline broadcast is emitted. Moreover the guard tests
  the stored login time for truthiness before comparing it: a stored login time of 0 (the
  clock value \<^verbatim>\<open>Date.now()\<close> is stored when the client sends none) is carried by the
  connection that stored it, and yet its user-offline removes nothing and emits nothing.
\<close>

theorem offline_broadcast_counterexample:
  "map_of (userLoginTime ex_two_sessions) (user ''u1'') = sock_loginTime (sockets ex_two_sessions 1) \<and>
   user_offline 1 (user ''u1'') StoreFailed ex_two_sessions =
     (ex_two_sessions\<lparr>userSockets := [], userLoginTime := []\<rparr>,
      [StoreUpdate (user ''u1'') Offline None None]) \<and>
   map_of (userLoginTime (fst (user_online 0 (user ''u1'') None 0 StoreFound init_state))) (user ''u1'') =
     sock_loginTime (sockets (fst (user_online 0 (user ''u1'') None 0 StoreFound init_state)) 0) \<and>
   user_offline 0 (user ''u1'') StoreFound (fst (user_online 0 (user ''u1'') None 0 StoreFound init_state)) =
     (fst (user_online 0 (user ''u1'') None 0 StoreFound init_state), [])"
  by (simp add: ex_two_sessions_eval user_offline_def user_online_def login_time_or_now_def
      init_state_def epoch_matches_def Let_def)

text \<open>
  C9 (amended). A user-offline event from a connection whose login time differs from the
  one stored for the user id changes nothing and emits nothing (and likewise a disconnect
  of such a connection). Whenever a user-offline or a disconnect removes a registry entry
  or emits an offline broadcast for a user, the connection carried the stored login time
  of that user, and no event other than these two removes a registered user or emits an
  offline broadcast. A user-offline carrying the stored login time, that time being
  non-zero, removes the entry from both registry tables and emits the offline broadcast
  unless the store write is rejected; so does the disconnect of a connection that carries
  the stored non-zero login time of its user, whose id is non-empty.
\<close>

theorem offline_epoch_guard:
  "(map_of (userLoginTime s) uid \<noteq> sock_loginTime (sockets s sid) \<longrightarrow>
      user_offline sid uid outcome s = (s, [])) \<and>
   (\<forall>u. sock_userId (sockets s sid) = Some u \<and>
         map_of (userLoginTime s) u \<noteq> sock_loginTime (sockets s sid) \<longrightarrow>
      disconnect sid outcome s = (s, [])) \<and>
   (\<forall>u. map_of (userLoginTime (fst (user_offline sid uid outcome s))) u \<noteq> map_of (userLoginTime s) u \<or>
        map_of (userSockets (fst (user_offline sid uid outcome s))) u \<noteq> map_of (userSockets s) u \<or>
        (\<exists>tg lt. Emit tg (UserStatusChanged u Offline lt) \<in> set (snd (user_offline sid uid outcome s))) \<longrightarrow>
      u = uid \<and> map_of (userLoginTime s) uid \<noteq> None \<and>
      map_of (userLoginTime s) uid = sock_loginTime (sockets s sid)) \<and>
   (\<forall>u. map_of (userLoginTime (fst (disconnect sid outcome s))) u \<noteq> map_of (userLoginTime s) u \<or>
        map_of (userSockets (fst (disconnect sid outcome s))) u \<noteq> map_of (userSockets s) u \<or>
        (\<exists>tg lt. Emit tg (UserStatusChanged u Offline lt) \<in> set (snd (disconnect sid outcome s))) \<longrightarrow>
      sock_userId (sockets s sid) = Some u \<and> map_of (userLoginTime s) u \<noteq> None \<and>
      map_of (userLoginTime s) u = sock_loginTime (sockets s sid)) \<and>
   (\<forall>e u. (map_of (userLoginTime s) u \<noteq> None \<and> map_of (userLoginTime (fst (step e s))) u = None) \<or>
        (\<exists>tg lt. Emit tg (UserStatusChanged u Offline lt) \<in> set (snd (step e s))) \<longrightarrow>
      (\<exists>sid' outcome'. (e = UserOffline sid' u outcome' \<or>
            (e = Disconnect sid' outcome' \<and> sock_userId (sockets s sid') = Some u)) \<and>
          map_of (userLoginTime s) u \<noteq> None \<and>
          map_of (userLoginTime s) u = sock_loginTime (sockets s sid'))) \<and>
   (\<forall>e. map_of (userLoginTime s) uid = Some e \<and> e \<noteq> 0 \<and>
        sock_loginTime (sockets s sid) = Some e \<longrightarrow>
      user_offline sid uid outcome s =
        (s\<lparr>userSockets := AList.delete uid (userSockets s),
           userLoginTime := AList.delete uid (userLoginTime s)\<rparr>,
         StoreUpdate uid Offline None None #
         (if outcome \<noteq> StoreFailed
          then [Emit (ToAllExcept sid) (UserStatusChanged uid Offline None)] else []))) \<and>
   (\<forall>u e. sock_userId (sockets s sid) = Some u \<and> id_name u \<noteq> [] \<and>
        map_of (userLoginTime s) u = Some e \<and> e \<noteq> 0 \<and>
        sock_loginTime (sockets s sid) = Some e \<longrightarrow>
      map_of (userLoginTime (fst (disconnect sid outcome s))) u = None \<and>
      map_of (userSockets (fst (disconnect sid outcome s))) u = None \<and>
      ((Emit (ToAllExcept sid) (UserStatusChanged u Offline None)
          \<in> set (snd (disconnect sid outcome s))) \<longleftrightarrow> outcome \<noteq> StoreFailed))"
proof (intro conjI allI impI)
  assume "map_of (userLoginTime s) uid \<noteq> sock_loginTime (sockets s sid)"
  then have "\<not> epoch_matches (map_of (userLoginTime s) uid) (sock_loginTime (sockets s sid))"
    using epoch_matches_eq by blast
  then show "user_offline sid uid outcome s = (s, [])"
    by (rule user_offline_stale)
next
  fix u
  assume a: "sock_userId (sockets s sid) = Some u \<and>
         map_of (userLoginTime s) u \<noteq> sock_loginTime (sockets s sid)"
  then have "\<not> epoch_matches (map_of (userLoginTime s) u) (sock_loginTime (sockets s sid))"
    using epoch_matches_eq by blast
  with a show "disconnect sid outcome s = (s, [])"
    by (simp add: disconnect_stale)
next
  fix u
  assume "map_of (userLoginTime (fst (user_offline sid uid outcome s))) u \<noteq> map_of (userLoginTime s) u \<or>
        map_of (userSockets (fst (user_offline sid uid outcome s))) u \<noteq> map_of (userSockets s) u \<or>
        (\<exists>tg lt. Emit tg (UserStatusChanged u Offline lt) \<in> set (snd (user_offline sid uid outcome s)))"
  then have "u = uid \<and> epoch_matches (map_of (userLoginTime s) uid) (sock_loginTime (sockets s sid))"
    by (rule user_offline_touches)
  then show "u = uid" and "map_of (userLoginTime s) uid \<noteq> None"
    and "map_of (userLoginTime s) uid = sock_loginTime (sockets s sid)"
    using epoch_matches_eq by blast+
next
  fix u
  assume "map_of (userLoginTime (fst (disconnect sid outcome s))) u \<noteq> map_of (userLoginTime s) u \<or>
        map_of (userSockets (fst (disconnect sid outcome s))) u \<noteq> map_of (userSockets s) u \<or>
        (\<exists>tg lt. Emit tg (UserStatusChanged u Offline lt) \<in> set (snd (disconnect sid outcome s)))"
  then have "sock_userId (sockets s sid) = Some u \<and>
     epoch_matches (map_of (userLoginTime s) u) (sock_loginTime (sockets s sid))"
    by (rule disconnect_touches)
  then show "sock_userId (sockets s sid) = Some u" and "map_of (userLoginTime s) u \<noteq> None"
    and "map_of (userLoginTime s) u = sock_loginTime (sockets s sid)"
    using epoch_matches_eq by blast+
next
  fix e u
  assume "(map_of (userLoginTime s) u \<noteq> None \<and> map_of (userLoginTime (fst (step e s))) u = None) \<or>
        (\<exists>tg lt. Emit tg (UserStatusChanged u Offline lt) \<in> set (snd (step e s)))"
  then have "\<exists>sid' outcome'. (e = UserOffline sid' u outcome' \<or>
            (e = Disconnect sid' outcome' \<and> sock_userId (sockets s sid') = Some u)) \<and>
          epoch_matches (map_of (userLoginTime s) u) (sock_loginTime (sockets s sid'))"
    by (rule step_unregisters)
  then obtain sid' outcome' where
    a: "e = UserOffline sid' u outcome' \<or>
            (e = Disconnect sid' outcome' \<and> sock_userId (sockets s sid') = Some u)"
    and b: "epoch_matches (map_of (userLoginTime s) u) (sock_loginTime (sockets s sid'))"
    by blast
  from b have "map_of (userLoginTime s) u \<noteq> None \<and>
          map_of (userLoginTime s) u = sock_loginTime (sockets s sid')"
    using epoch_matches_eq by blast
  with a show "\<exists>sid' outcome'. (e = UserOffline sid' u outcome' \<or>
            (e = Disconnect sid' outcome' \<and> sock_userId (sockets s sid') = Some u)) \<and>
          map_of (userLoginTime s) u \<noteq> None \<and>
          map_of (userLoginTime s) u = sock_loginTime (sockets s sid')"
    by blast
next
  fix e
  assume "map_of (userLoginTime s) uid = Some e \<and> e \<noteq> 0 \<and>
        sock_loginTime (sockets s sid) = Some e"
  then have "epoch_matches (map_of (userLoginTime s) uid) (sock_loginTime (sockets s sid))"
    by (simp add: epoch_matches_def)
  then show "user_offline sid uid outcome s =
        (s\<lparr>userSockets := AList.delete uid (userSockets s),
           userLoginTime := AList.delete uid (userLoginTime s)\<rparr>,
         StoreUpdate uid Offline None None #
         (if outcome \<noteq> StoreFailed
          then [Emit (ToAllExcept sid) (UserStatusChanged uid Offline None)] else []))"
    by (rule user_offline_current_epoch)
next
  fix u e
  assume a: "sock_userId (sockets s sid) = Some u \<and> id_name u \<noteq> [] \<and>
        map_of (userLoginTime s) u = Some e \<and> e \<noteq> 0 \<and>
        sock_loginTime (sockets s sid) = Some e"
  then have m: "epoch_matches (map_of (userLoginTime s) u) (sock_loginTime (sockets s sid))"
    by (simp add: epoch_matches_def)
  from a have su: "sock_userId (sockets s sid) = Some u" and n: "id_name u \<noteq> []"
    by simp_all
  show "map_of (userLoginTime (fst (disconnect sid outcome s))) u = None"
    by (simp add: disconnect_registry(1) [OF su m n] map_of_delete_if)
  show "map_of (userSockets (fst (disconnect sid outcome s))) u = None"
    by (simp add: disconnect_registry(2) [OF su m n] map_of_delete_if)
  show "(Emit (ToAllExcept sid) (UserStatusChanged u Offline None)
          \<in> set (snd (disconnect sid outcome s))) \<longleftrightarrow> outcome \<noteq> StoreFailed"
    by (simp add: disconnect_current_out [OF su m n] disconnect_call_no_presence)
qed

theorem offline_epoch_guard_witness:
  "map_of (userLoginTime ex_two_sessions) (user ''u1'') \<noteq> sock_loginTime (sockets ex_two_sessions 0) \<and>
   user_offline 0 (user ''u1'') StoreFound ex_two_sessions = (ex_two_sessions, []) \<and>
   disconnect 0 StoreFound ex_two_sessions = (ex_two_sessions, []) \<and>
   map_of (userLoginTime ex_two_sessions) (user ''u1'') = sock_loginTime (sockets ex_two_sessions 1) \<and>
   user_offline 1 (user ''u1'') StoreFound ex_two_sessions =
     (ex_two_sessions\<lparr>userSockets := [], userLoginTime := []\<rparr>,
      [StoreUpdate (user ''u1'') Offline None None,
       Emit (ToAllExcept 1) (UserStatusChanged (user ''u1'') Offline None)]) \<and>
   Emit (ToAllExcept 1) (UserStatusChanged (user ''u1'') Offline None)
     \<in> set (snd (disconnect 1 StoreFound ex_two_sessions)) \<and>
   map_of (userLoginTime (fst (disconnect 1 StoreFound ex_two_sessions))) (user ''u1'') = None"
proof -
  have a: "map_of (userLoginTime ex_two_sessions) (user ''u1'') \<noteq> sock_loginTime (sockets ex_two_sessions 0)"
    by (simp add: ex_two_sessions_eval)
  have b: "sock_userId (sockets ex_two_sessions 0) = Some (user ''u1'')"
    by (simp add: ex_two_sessions_eval)
  have c: "sock_userId (sockets ex_two_sessions 1) = Some (user ''u1'')"
    and d: "id_name (user ''u1'') \<noteq> []"
    and e: "map_of (userLoginTime ex_two_sessions) (user ''u1'') = Some 2"
    and f: "sock_loginTime (sockets ex_two_sessions 1) = Some 2"
    and g: "userSockets ex_two_sessions = [(user ''u1'', 1)]"
    and h: "userLoginTime ex_two_sessions = [(user ''u1'', 2)]"
    by (simp_all add: ex_two_sessions_eval)
  note th0 = offline_epoch_guard [of ex_two_sessions "user ''u1''" 0 StoreFound]
  note th1 = offline_epoch_guard [of ex_two_sessions "user ''u1''" 1 StoreFound]
  note p1 = th1 [THEN conjunct2, THEN conjunct2, THEN conjunct2, THEN conjunct2,
      THEN conjunct2, THEN conjunct1, rule_format, of 2]
  note p2 = th1 [THEN conjunct2, THEN conjunct2, THEN conjunct2, THEN conjunct2,
      THEN conjunct2, THEN conjunct2, rule_format, of "user ''u1''" 2]
  from th0 a have i: "user_offline 0 (user ''u1'') StoreFound ex_two_sessions = (ex_two_sessions, [])"
    by blast
  from th0 a b have j: "disconnect 0 StoreFound ex_two_sessions = (ex_two_sessions, [])"
    by blast
  from p1 e f have "user_offline 1 (user ''u1'') StoreFound ex_two_sessions =
        (ex_two_sessions\<lparr>userSockets := AList.delete (user ''u1'') (userSockets ex_two_sessions),
           userLoginTime := AList.delete (user ''u1'') (userLoginTime ex_two_sessions)\<rparr>,
         StoreUpdate (user ''u1'') Offline None None #
         (if StoreFound \<noteq> StoreFailed
          then [Emit (ToAllExcept 1) (UserStatusChanged (user ''u1'') Offline None)] else []))"
    by simp
  then have k: "user_offline 1 (user ''u1'') StoreFound ex_two_sessions =
     (ex_two_sessions\<lparr>userSockets := [], userLoginTime := []\<rparr>,
      [StoreUpdate (user ''u1'') Offline None None,
       Emit (ToAllExcept 1) (UserStatusChanged (user ''u1'') Offline None)])"
    by (simp add: g h)
  from p2 c d e f have "map_of (userLoginTime (fst (disconnect 1 StoreFound ex_two_sessions))) (user ''u1'') = None \<and>
      map_of (userSockets (fst (disconnect 1 StoreFound ex_two_sessions))) (user ''u1'') = None \<and>
      ((Emit (ToAllExcept 1) (UserStatusChanged (user ''u1'') Offline None)
          \<in> set (snd (disconnect 1 StoreFound ex_two_sessions))) \<longleftrightarrow> StoreFound \<noteq> StoreFailed)"
    by simp
  then have l: "Emit (ToAllExcept 1) (UserStatusChanged (user ''u1'') Offline None)
     \<in> set (snd (disconnect 1 StoreFound ex_two_sessions))"
    and m: "map_of (userLoginTime (fst (disconnect 1 StoreFound ex_two_sessions))) (user ''u1'') = None"
    by simp_all
  have n: "map_of (userLoginTime ex_two_sessions) (user ''u1'') = sock_loginTime (sockets ex_two_sessions 1)"
    using e f by simp
  show ?thesis
    by (intro conjI) (rule a i j n k l m)+
qed

end
